theory Spec2Isabelle
  imports Complex_Main
begin

section \<open>Shared types (src/types.ts)\<close>

text \<open>
  JavaScript numbers are modelled as \<open>int\<close> (timestamps, coordinates, budgets) or
  \<open>nat\<close> (counters that only grow). An optional field \<open>f?: T\<close> is a \<open>T option\<close>.
  A thrown \<open>Error(message)\<close> is the value \<open>Error message\<close>; the message assembled by
  the schema parser from the issues of the external schema library is kept as the list
  of the offending paths.
\<close>

datatype CaptureProfile = adaptive | dom_only | frames_only

datatype PolicyMode = model_owns_action | deterministic

datatype AgentAction = Click | Type | Press | Scroll | Hover | Drag | Navigate | Wait | WaitFor

datatype error = Error string | InvalidToolArguments "string list"

fun action_name :: "AgentAction \<Rightarrow> string" where
  "action_name Click = ''click''"
| "action_name Type = ''type''"
| "action_name Press = ''press''"
| "action_name Scroll = ''scroll''"
| "action_name Hover = ''hover''"
| "action_name Drag = ''drag''"
| "action_name Navigate = ''navigate''"
| "action_name Wait = ''wait''"
| "action_name WaitFor = ''wait_for''"

record CaptureSettingsInput =
  include_frame :: "bool option"
  include_dom :: "bool option"
  include_ax :: "bool option"
  include_network :: "bool option"
  max_frames :: "int option"

record SessionCreateInput =
  target_url :: string
  c_viewport :: "(int \<times> int) option"
  c_headless :: "bool option"
  storage_state :: "string option"
  capture_profile :: "CaptureProfile option"
  c_policy :: "PolicyMode option"
  max_steps :: "int option"
  max_duration_ms :: "int option"

record ActionInput =
  in_session_id :: string
  in_action :: AgentAction
  in_selector :: "string option"
  in_text :: "string option"
  in_key :: "string option"
  in_url :: "string option"
  in_x :: "int option"
  in_y :: "int option"
  in_delta_x :: "int option"
  in_delta_y :: "int option"
  in_timeout_ms :: "int option"
  in_capture :: "CaptureSettingsInput option"
  in_max_actions_per_step :: "int option"
  in_wait_for :: "string option"

record SnapshotInput =
  sn_session_id :: string
  sn_include_frame :: "bool option"
  sn_include_dom :: "bool option"
  sn_include_ax :: "bool option"
  sn_include_network :: "bool option"

record StopInput =
  st_session_id :: string
  preserve_artifacts :: "bool option"

record ReplayInput =
  rp_trace_id :: string
  step_range :: "(int option \<times> int option) option"

record Bounds =
  b_x :: int
  b_y :: int
  b_width :: int
  b_height :: int

record FrameMetadata =
  fm_scale :: "int option"
  raw_length :: nat
  processing_ms :: int

record FrameRef =
  fr_id :: string
  fr_timestamp :: int
  fr_width :: int
  fr_height :: int
  mime :: string
  checksum :: "string option"
  storage_path :: "string option"
  fr_metadata :: "FrameMetadata option"

record RegionDetection =
  rd_label :: string
  confidence :: real
  rd_bounds :: Bounds

record DomElementSummary =
  el_tag :: string
  el_id :: "string option"
  el_name :: "string option"
  el_role :: "string option"
  el_text :: "string option"
  el_bounds :: "Bounds option"

record DomSummary =
  interactive_count :: nat
  text_inputs :: nat
  buttons :: nat
  links :: nat
  iframes :: nat
  canvas_nodes :: nat
  top_elements :: "DomElementSummary list"

record NetworkEvent =
  ne_id :: string
  ne_url :: string
  ne_method :: string
  ne_status :: "int option"
  ne_type :: "string option"
  ne_time :: int
  failureText :: "string option"

record QueueHealth =
  frame_queue_depth :: nat
  frame_queue_max :: int
  dropped_frames :: nat
  pending_frames :: int

text \<open>
  \<open>accessibility?: unknown\<close>: absent, \<open>null\<close> (the snapshot call was rejected and the
  rejection caught), or the opaque tree the driver returned.
\<close>

datatype ax_value = AxUndefined | AxNull | AxTree string

record StatePacket =
  state_token :: string
  sp_timestamp :: int
  sp_session_id :: string
  sp_url :: string
  sp_title :: string
  sp_dom :: "DomSummary option"
  accessibility :: ax_value
  network_events :: "NetworkEvent list"
  frame_refs :: "FrameRef list"
  region_detections :: "RegionDetection list"
  change_tokens :: "string list"
  queue_health :: QueueHealth

record ActionResult =
  ar_action :: AgentAction
  success :: bool
  status :: string
  ar_target :: "string option"
  ar_selector :: "string option"
  coordinates :: "(int \<times> int) option"
  detail :: "string option"
  elapsed_ms :: "int option"

record StepResult =
  sr_state :: StatePacket
  sr_frame_refs :: "FrameRef list"
  action_result :: ActionResult
  error_codes :: "string list"
  next_recommendation :: string
  latency_ms :: int
  sr_queue_health :: QueueHealth

record SessionCapabilities =
  cap_capture_profile :: CaptureProfile
  cap_max_steps :: int
  cap_max_duration_ms :: int
  cap_policy :: PolicyMode
  dom_first :: bool
  frame_capture :: bool

record CreateResult =
  cr_session_id :: string
  cr_trace_id :: string
  session_capabilities :: SessionCapabilities
  initial_state_snapshot :: StatePacket
  frame_ref :: "FrameRef option"

record SessionStopResult =
  ssr_session_id :: string
  final_status :: string
  cleanup_status :: string
  trace_path :: string
  retained_logs :: bool

datatype replay_type = ev_create | ev_step | ev_snapshot | ev_stop

text \<open>\<open>payload: unknown\<close>: one constructor for each object the session records.\<close>

datatype replay_payload =
    CreatePayload string StatePacket SessionCapabilities
  | StepPayload StepResult
  | SnapshotPayload StatePacket
  | StopPayload string bool

record ReplayEvent =
  ev_type :: replay_type
  ev_index :: int
  ev_at :: int
  ev_payload :: replay_payload

text \<open>
  A trace file is read back line by line, and a line may hold JSON that is not an event.
  Of such a value the model keeps what the store reads of it: whether its \<open>type\<close> is
  \<open>create\<close>, the \<open>session_id\<close> of its payload when that is a string, and its \<open>at\<close> and
  \<open>index\<close>, each absent or an integer. A number or a boolean on a line reads as an
  object with none of these fields. The entries of a manifest are events or such values.
\<close>

record json_value =
  jv_is_create :: bool
  jv_session_id :: "string option"
  jv_at :: "int option"
  jv_index :: "int option"

datatype loaded = IsEvent ReplayEvent | NotEvent json_value

record ReplayManifest =
  m_trace_id :: string
  m_session_id :: "string option"
  created_at :: int
  events :: "loaded list"

section \<open>Strings and numbers as JavaScript prints and compares them\<close>

definition digit_char :: "nat \<Rightarrow> char" where
  "digit_char d = (''0123456789'' ! d)"

function show_nat :: "nat \<Rightarrow> string" where
  "show_nat n = (if n < 10 then [digit_char n] else show_nat (n div 10) @ [digit_char (n mod 10)])"
  by pat_completeness auto
termination
  by (relation "measure (\<lambda>n. n)") auto

declare show_nat.simps [simp del]

definition show_int :: "int \<Rightarrow> string" where
  "show_int i = (if i < 0 then CHR ''-'' # show_nat (nat (- i)) else show_nat (nat i))"

definition to_lower_char :: "char \<Rightarrow> char" where
  "to_lower_char c =
     (case map_of (zip ''ABCDEFGHIJKLMNOPQRSTUVWXYZ'' ''abcdefghijklmnopqrstuvwxyz'') c of
        Some l \<Rightarrow> l
      | None \<Rightarrow> c)"

definition toLowerCase :: "string \<Rightarrow> string" where
  "toLowerCase s = map to_lower_char s"

definition is_space :: "char \<Rightarrow> bool" where
  "is_space c = (c \<in> set [CHR '' '', CHR 0x09, CHR 0x0A, CHR 0x0B, CHR 0x0C, CHR 0x0D])"

definition trim :: "string \<Rightarrow> string" where
  "trim s = rev (dropWhile is_space (rev (dropWhile is_space s)))"

definition startsWith :: "string \<Rightarrow> string \<Rightarrow> bool" where
  "startsWith s p = (take (length p) s = p)"

definition endsWith :: "string \<Rightarrow> string \<Rightarrow> bool" where
  "endsWith s p = (length p \<le> length s \<and> drop (length s - length p) s = p)"

fun includes_str :: "string \<Rightarrow> string \<Rightarrow> bool" where
  "includes_str [] p = (p = [])"
| "includes_str (c # s) p = (startsWith (c # s) p \<or> includes_str s p)"

text \<open>\<open>xs.slice(-n)\<close> for \<open>n \<ge> 1\<close>: the last \<open>n\<close> elements; \<open>xs.slice(-0)\<close> is the whole array.\<close>

definition slice_last :: "int \<Rightarrow> 'a list \<Rightarrow> 'a list" where
  "slice_last n xs = (if n \<le> 0 then xs else drop (length xs - nat n) xs)"

section \<open>FixedRingBuffer (src/capture/cdp.ts)\<close>

record 'a FixedRingBuffer =
  items :: "'a list"
  dropped :: nat
  maxDepth :: int

definition new_FixedRingBuffer :: "int \<Rightarrow> 'a FixedRingBuffer" where
  "new_FixedRingBuffer c = \<lparr>items = [], dropped = 0, maxDepth = c\<rparr>"

text \<open>
  The \<open>while\<close> loop of \<open>push\<close>. \<open>shift()\<close> on an empty array removes nothing, so with a
  negative \<open>maxDepth\<close> the loop never ends: not returning is the value \<open>None\<close>.
\<close>

partial_function (option) evict_loop :: "'a FixedRingBuffer \<Rightarrow> 'a FixedRingBuffer option" where
  "evict_loop r =
     (if int (length (items r)) > maxDepth r
      then evict_loop (r\<lparr>items := tl (items r), dropped := dropped r + 1\<rparr>)
      else Some r)"

definition push :: "'a FixedRingBuffer \<Rightarrow> 'a \<Rightarrow> 'a FixedRingBuffer option" where
  "push r v = evict_loop (r\<lparr>items := items r @ [v]\<rparr>)"

definition popOldest :: "'a FixedRingBuffer \<Rightarrow> 'a option \<times> 'a FixedRingBuffer" where
  "popOldest r = (case items r of [] \<Rightarrow> (None, r) | v # vs \<Rightarrow> (Some v, r\<lparr>items := vs\<rparr>))"

definition getAll :: "'a FixedRingBuffer \<Rightarrow> 'a list" where
  "getAll r = items r"

definition depth :: "'a FixedRingBuffer \<Rightarrow> nat" where
  "depth r = length (items r)"

definition clear :: "'a FixedRingBuffer \<Rightarrow> 'a FixedRingBuffer" where
  "clear r = r\<lparr>items := []\<rparr>"

text \<open>A sequence of pushes, one after the other; it returns only if every push does.\<close>

fun push_all :: "'a FixedRingBuffer \<Rightarrow> 'a list \<Rightarrow> 'a FixedRingBuffer option" where
  "push_all r [] = Some r"
| "push_all r (v # vs) = (case push r v of None \<Rightarrow> None | Some r' \<Rightarrow> push_all r' vs)"

section \<open>MetricsCollector (src/telemetry/metrics.ts)\<close>

record MetricsCollector =
  stepLatencies :: "int list"
  droppedFrames :: nat
  actionFailures :: nat
  steps :: nat

definition recordStepLatency :: "int \<Rightarrow> MetricsCollector \<Rightarrow> MetricsCollector" where
  "recordStepLatency ms m =
     (let ls = stepLatencies m @ [max 0 ms]
      in m\<lparr>steps := steps m + 1, stepLatencies := (if length ls > 500 then tl ls else ls)\<rparr>)"

definition recordActionFailure :: "MetricsCollector \<Rightarrow> MetricsCollector" where
  "recordActionFailure m = m\<lparr>actionFailures := actionFailures m + 1\<rparr>"

section \<open>CaptureCoordinator (src/capture/cdp.ts)\<close>

text \<open>
  The remote-debug channel and the screencast are the driver's. What the driver does is an
  input of the model: for each call that may reject, the environment record says whether
  it does. The frame-event handler is not part of this development; the ring of a
  coordinator is whatever the frames received so far have left in it.
\<close>

record FrameOptions =
  fo_enabled :: bool
  fo_traceId :: string
  fo_sessionId :: string
  frameQuality :: int
  fo_maxWidth :: "int option"
  fo_maxHeight :: "int option"
  fo_maxFrames :: int
  fo_adaptive :: bool
  fo_traceDir :: string

record CaptureCoordinator =
  cfg :: FrameOptions
  frameBuffer :: "FrameRef FixedRingBuffer"
  has_frameEventHandler :: bool
  has_cdpSession :: bool
  cc_active :: bool
  pendingAcks :: int
  lastCaptureMs :: int
  burstUntilMs :: int
  cdpFrameSeq :: nat
  detached :: bool
  lastDroppedFrames :: nat

definition new_CaptureCoordinator :: "FrameOptions \<Rightarrow> CaptureCoordinator" where
  "new_CaptureCoordinator opts =
     \<lparr>cfg = opts, frameBuffer = new_FixedRingBuffer (max 1 (fo_maxFrames opts)),
      has_frameEventHandler = False, has_cdpSession = False, cc_active = False,
      pendingAcks = 0, lastCaptureMs = 0, burstUntilMs = 0, cdpFrameSeq = 0,
      detached = False, lastDroppedFrames = 0\<rparr>"

record cdp_start_env =
  newCDPSession_rejects :: "error option"
  page_enable_rejects :: "error option"
  startScreencast_rejects :: "error option"

definition cc_start :: "cdp_start_env \<Rightarrow> CaptureCoordinator \<Rightarrow> (error + unit) \<times> CaptureCoordinator" where
  "cc_start env c =
     (if \<not> fo_enabled (cfg c) \<or> cc_active c then (Inr (), c)
      else (case newCDPSession_rejects env of
        Some e \<Rightarrow> (Inl e, c)
      | None \<Rightarrow>
          (let c1 = c\<lparr>has_cdpSession := True, cc_active := True, detached := False,
                       has_frameEventHandler := True\<rparr>
           in (case page_enable_rejects env of
                 Some e \<Rightarrow> (Inl e, c1)
               | None \<Rightarrow>
                   (case startScreencast_rejects env of
                      Some e \<Rightarrow> (Inl e, c1)
                    | None \<Rightarrow> (Inr (), c1))))))"

record cdp_stop_env =
  stopScreencast_rejects :: bool
  detach_rejects :: bool

text \<open>
  \<open>stop\<close>: both driver calls stand in \<open>try { ... } catch { }\<close>, so the coordinator goes
  on the same way whether they reject or not.
\<close>

definition cc_stop :: "cdp_stop_env \<Rightarrow> CaptureCoordinator \<Rightarrow> CaptureCoordinator" where
  "cc_stop env c =
     (if \<not> cc_active c \<or> \<not> has_cdpSession c then c\<lparr>cc_active := False\<rparr>
      else
        let c1 = c\<lparr>cc_active := False\<rparr>;
            c2 = (if stopScreencast_rejects env then c1 else c1);
            c3 = (if detach_rejects env then c2 else c2)
        in c3\<lparr>detached := True, has_frameEventHandler := False,
               frameBuffer := clear (frameBuffer c3), pendingAcks := 0\<rparr>)"

definition getQueueDepth :: "CaptureCoordinator \<Rightarrow> nat" where
  "getQueueDepth c = depth (frameBuffer c)"

definition getQueueMax :: "CaptureCoordinator \<Rightarrow> int" where
  "getQueueMax c = maxDepth (frameBuffer c)"

definition getDroppedFrames :: "CaptureCoordinator \<Rightarrow> nat" where
  "getDroppedFrames c = dropped (frameBuffer c)"

definition getPendingFrames :: "CaptureCoordinator \<Rightarrow> int" where
  "getPendingFrames c = max 0 (pendingAcks c)"

definition getQueue :: "CaptureCoordinator \<Rightarrow> FrameRef list" where
  "getQueue c = getAll (frameBuffer c)"

definition signalVisualDrift :: "int \<Rightarrow> CaptureCoordinator \<Rightarrow> CaptureCoordinator" where
  "signalVisualDrift now c = (if \<not> fo_adaptive (cfg c) then c else c\<lparr>burstUntilMs := now + 2000\<rparr>)"

section \<open>StateBuilder (src/observe/state-builder.ts)\<close>

text \<open>
  The builder keeps references to the page, to the session's coordinator and to the
  session's network array; the model passes the coordinator and the array of the session
  to each call, so the builder's own state is \<open>lastStateToken\<close>. What the page answers is
  the environment's \<open>page_obs\<close>. The object that is serialised and hashed is
  \<open>token_seed\<close>; the function \<open>sha1_hex\<close> (serialise, SHA-1, hex) is a parameter.
\<close>

record StateBuilder =
  lastStateToken :: string

record ObserveOptions =
  includeDom :: bool
  includeAx :: bool
  includeNetwork :: bool
  includeFrame :: bool
  maxFrames :: "int option"

datatype ax_probe = AxApiMissing | AxSnapshotRejects | AxSnapshot string

record page_obs =
  page_url :: string
  page_title :: "string option"
  page_dom :: "error + DomSummary"
  page_ax :: ax_probe
  obs_now :: int

record dom_counts =
  dc_interactive_count :: nat
  dc_buttons :: nat
  dc_text_inputs :: nat
  dc_links :: nat
  dc_iframes :: nat
  dc_canvas_nodes :: nat

record token_seed =
  seed_url :: string
  seed_title :: string
  seed_dom :: "dom_counts option"
  networkCount :: nat
  frameCount :: nat

definition new_StateBuilder :: StateBuilder where
  "new_StateBuilder = \<lparr>lastStateToken = []\<rparr>"

definition computeChangeTokens :: "string \<Rightarrow> string \<Rightarrow> string list" where
  "computeChangeTokens previous current =
     (if previous = [] then [''INIT'']
      else if previous = current then [''NO_CHANGE'']
      else [''STATE_CHANGED''])"

definition normalizeFrameRefs :: "FrameRef list \<Rightarrow> FrameRef list" where
  "normalizeFrameRefs refs =
     map (\<lambda>frame. \<lparr>fr_id = fr_id frame, fr_timestamp = fr_timestamp frame,
                    fr_width = fr_width frame, fr_height = fr_height frame, mime = mime frame,
                    checksum = checksum frame, storage_path = storage_path frame,
                    fr_metadata = fr_metadata frame\<rparr>) refs"

definition buildDomSummary :: "page_obs \<Rightarrow> error + DomSummary" where
  "buildDomSummary obs =
     (case page_dom obs of
        Inl e \<Rightarrow> Inl e
      | Inr result \<Rightarrow>
          Inr \<lparr>interactive_count = interactive_count result, text_inputs = text_inputs result,
               buttons = buttons result, links = links result, iframes = iframes result,
               canvas_nodes = canvas_nodes result, top_elements = top_elements result\<rparr>)"

definition region_of :: "DomElementSummary \<Rightarrow> RegionDetection" where
  "region_of element =
     \<lparr>rd_label = el_tag element @
         (case el_id element of None \<Rightarrow> [] | Some i \<Rightarrow> (if i = [] then [] else ''#'' @ i)),
      confidence = 78 / 100,
      rd_bounds = the (el_bounds element)\<rparr>"

definition buildStateSnapshot ::
  "(token_seed \<Rightarrow> string) \<Rightarrow> ObserveOptions \<Rightarrow> page_obs \<Rightarrow> NetworkEvent list \<Rightarrow>
   CaptureCoordinator \<Rightarrow> StateBuilder \<Rightarrow> error + (StatePacket \<times> StateBuilder)" where
  "buildStateSnapshot sha1_hex options obs networkRing coordinator sb =
     (let url = page_url obs;
          title = (case page_title obs of None \<Rightarrow> [] | Some t \<Rightarrow> t)
      in case (if includeDom options then map_sum id Some (buildDomSummary obs) else Inr None) of
        Inl e \<Rightarrow> Inl e
      | Inr domSummary \<Rightarrow>
          let ax = (if includeAx options
                    then (case page_ax obs of
                            AxApiMissing \<Rightarrow> AxUndefined
                          | AxSnapshotRejects \<Rightarrow> AxNull
                          | AxSnapshot t \<Rightarrow> AxTree t)
                    else AxUndefined);
              network = (if includeNetwork options then slice_last 100 networkRing else []);
              frameLimit = (if includeFrame options
                            then max 1 (case maxFrames options of None \<Rightarrow> 6 | Some n \<Rightarrow> n) else 0);
              frameRefs = (if includeFrame options then slice_last frameLimit (getQueue coordinator) else []);
              tokenSeed = \<lparr>seed_url = url, seed_title = title,
                           seed_dom = map_option (\<lambda>d. \<lparr>dc_interactive_count = interactive_count d,
                                                         dc_buttons = buttons d,
                                                         dc_text_inputs = text_inputs d,
                                                         dc_links = links d,
                                                         dc_iframes = iframes d,
                                                         dc_canvas_nodes = canvas_nodes d\<rparr>) domSummary,
                           networkCount = length network, frameCount = length frameRefs\<rparr>;
              stateToken = sha1_hex tokenSeed;
              changeTokens = computeChangeTokens (lastStateToken sb) stateToken;
              regionDetections =
                (case domSummary of
                   None \<Rightarrow> []
                 | Some d \<Rightarrow> map region_of (filter (\<lambda>element. el_bounds element \<noteq> None) (top_elements d)))
          in Inr (\<lparr>state_token = stateToken, sp_timestamp = obs_now obs, sp_session_id = ''unknown'',
                    sp_url = url, sp_title = title, sp_dom = domSummary, accessibility = ax,
                    network_events = network, frame_refs = normalizeFrameRefs frameRefs,
                    region_detections = regionDetections, change_tokens = changeTokens,
                    queue_health = \<lparr>frame_queue_depth = getQueueDepth coordinator,
                                     frame_queue_max = getQueueMax coordinator,
                                     dropped_frames = getDroppedFrames coordinator,
                                     pending_frames = getPendingFrames coordinator\<rparr>\<rparr>,
                  sb\<lparr>lastStateToken := stateToken\<rparr>))"

definition withSessionId :: "StatePacket \<Rightarrow> string \<Rightarrow> StatePacket" where
  "withSessionId state sessionId =
     state\<lparr>sp_session_id := sessionId,
           queue_health := \<lparr>frame_queue_depth = frame_queue_depth (queue_health state),
                            frame_queue_max = frame_queue_max (queue_health state),
                            dropped_frames = dropped_frames (queue_health state),
                            pending_frames = pending_frames (queue_health state)\<rparr>\<rparr>"

text \<open>
  The packets one builder instance builds over a sequence of calls, in order; each call
  brings its own options, page answer, network array and coordinator. A call whose DOM
  evaluation rejects builds no packet and leaves the builder as it was.
\<close>

fun build_packets ::
  "(token_seed \<Rightarrow> string) \<Rightarrow> StateBuilder \<Rightarrow>
   (ObserveOptions \<times> page_obs \<times> NetworkEvent list \<times> CaptureCoordinator) list \<Rightarrow> StatePacket list" where
  "build_packets sha1_hex sb [] = []"
| "build_packets sha1_hex sb ((options, obs, ring, coordinator) # calls) =
     (case buildStateSnapshot sha1_hex options obs ring coordinator sb of
        Inl e \<Rightarrow> build_packets sha1_hex sb calls
      | Inr (packet, sb') \<Rightarrow> packet # build_packets sha1_hex sb' calls)"

section \<open>ReplayStore (src/replay/replay.ts)\<close>

text \<open>
  The file system is the working directory of the process and a map from paths to
  files. A trace file is the list of its non-blank lines; a line is the JSON of an
  event (\<open>JSON.parse\<close> gives the event back), the JSON of another value, the text
  \<open>null\<close>, or text that \<open>JSON.parse\<close> rejects. A read rejects when the file is missing
  or when the environment says so, and the store reads every rejection as the empty
  text. Writes reject when the environment says so.
\<close>

datatype trace_line = JsonEvent ReplayEvent | JsonOther json_value | JsonNull | Malformed string

record TraceIndex =
  ix_traceId :: string
  total :: nat
  updated_at :: int

record file_store =
  cwd :: string
  trace_files :: "string \<rightharpoonup> trace_line list"
  index_files :: "string \<rightharpoonup> TraceIndex"

definition sanitizeTraceId :: "string \<Rightarrow> string" where
  "sanitizeTraceId traceId =
     map (\<lambda>c. if c \<in> set ''abcdefghijklmnopqrstuvwxyzABCDEFGHIJKLMNOPQRSTUVWXYZ0123456789._-''
              then c else CHR ''_'') traceId"

text \<open>
  \<open>TRACE_DIR\<close> is \<open>path.resolve(process.cwd(), 'traces')\<close>, computed once when the module
  is loaded. The working directory is an absolute path with no trailing separator, the
  root \<open>/\<close> apart. The file names joined to it hold no separator.
\<close>

definition TRACE_DIR :: "string \<Rightarrow> string" where
  "TRACE_DIR dir = (if dir = ''/'' then ''/traces'' else dir @ ''/traces'')"

definition buildTracePath :: "string \<Rightarrow> string \<Rightarrow> string" where
  "buildTracePath dir traceId = TRACE_DIR dir @ ''/'' @ sanitizeTraceId traceId @ ''.jsonl''"

definition buildTraceIndex :: "string \<Rightarrow> string \<Rightarrow> string" where
  "buildTraceIndex dir traceId = TRACE_DIR dir @ ''/'' @ sanitizeTraceId traceId @ ''.index.json''"

definition append :: "error option \<Rightarrow> string \<Rightarrow> ReplayEvent \<Rightarrow> file_store \<Rightarrow> (error + unit) \<times> file_store" where
  "append rejects traceId event fs =
     (case rejects of
        Some e \<Rightarrow> (Inl e, fs)
      | None \<Rightarrow>
          let tracePath = buildTracePath (cwd fs) traceId;
              old = (case trace_files fs tracePath of None \<Rightarrow> [] | Some ls \<Rightarrow> ls)
          in (Inr (), fs\<lparr>trace_files := (trace_files fs)(tracePath \<mapsto> old @ [JsonEvent event])\<rparr>))"

text \<open>
  \<open>readFile\<close> as \<open>load\<close> calls it: the lines of the file, and no line when the read
  rejects. \<open>parsed_events\<close> parses each line and drops the lines that do not parse and
  the lines that parse to \<open>null\<close>.
\<close>

definition readFile :: "bool \<Rightarrow> string \<Rightarrow> file_store \<Rightarrow> trace_line list" where
  "readFile rejects tracePath fs =
     (if rejects then []
      else (case trace_files fs tracePath of None \<Rightarrow> [] | Some ls \<Rightarrow> ls))"

definition parsed_events :: "trace_line list \<Rightarrow> loaded list" where
  "parsed_events ls =
     concat (map (\<lambda>l. case l of
                          JsonEvent e \<Rightarrow> [IsEvent e]
                        | JsonOther v \<Rightarrow> [NotEvent v]
                        | JsonNull \<Rightarrow> []
                        | Malformed _ \<Rightarrow> []) ls)"

fun payload_session_id :: "replay_payload \<Rightarrow> string option" where
  "payload_session_id (CreatePayload sid _ _) = Some sid"
| "payload_session_id (StepPayload _) = None"
| "payload_session_id (SnapshotPayload state) = Some (sp_session_id state)"
| "payload_session_id (StopPayload sid _) = Some sid"

fun loaded_session_id :: "loaded \<Rightarrow> string option" where
  "loaded_session_id (IsEvent event) = payload_session_id (ev_payload event)"
| "loaded_session_id (NotEvent v) = jv_session_id v"

fun loaded_at :: "loaded \<Rightarrow> int option" where
  "loaded_at (IsEvent event) = Some (ev_at event)"
| "loaded_at (NotEvent v) = jv_at v"

fun loaded_index :: "loaded \<Rightarrow> int option" where
  "loaded_index (IsEvent event) = Some (ev_index event)"
| "loaded_index (NotEvent v) = jv_index v"

fun is_create_with_session_id :: "loaded \<Rightarrow> bool" where
  "is_create_with_session_id (IsEvent event) =
     (ev_type event = ev_create \<and> payload_session_id (ev_payload event) \<noteq> None)"
| "is_create_with_session_id (NotEvent v) = (jv_is_create v \<and> jv_session_id v \<noteq> None)"

definition load :: "int \<Rightarrow> bool \<Rightarrow> string \<Rightarrow> file_store \<Rightarrow> ReplayManifest" where
  "load now rejects traceId fs =
     (let raw = readFile rejects (buildTracePath (cwd fs) traceId) fs
      in if raw = []
         then \<lparr>m_trace_id = traceId, m_session_id = None, created_at = now, events = []\<rparr>
         else
           let evs = parsed_events raw
           in \<lparr>m_trace_id = traceId,
               m_session_id = (case find is_create_with_session_id evs of
                                 None \<Rightarrow> None | Some e \<Rightarrow> loaded_session_id e),
               created_at = (case evs of
                               [] \<Rightarrow> now
                             | e # _ \<Rightarrow> (case loaded_at e of None \<Rightarrow> now | Some a \<Rightarrow> a)),
               events = evs\<rparr>)"

text \<open>
  \<open>filter\<close>: a bound that is given drops the entries whose index is beyond it. An entry
  with no index is beyond no bound (\<open>undefined < start\<close> is false), so it is kept.
\<close>

definition filter_events ::
  "int \<Rightarrow> bool \<Rightarrow> string \<Rightarrow> int option \<Rightarrow> int option \<Rightarrow> file_store \<Rightarrow> loaded list" where
  "filter_events now rejects traceId start endIndex fs =
     filter (\<lambda>event.
        if (case (start, loaded_index event) of (Some s, Some i) \<Rightarrow> i < s | _ \<Rightarrow> False) then False
        else if (case (endIndex, loaded_index event) of (Some e, Some i) \<Rightarrow> i > e | _ \<Rightarrow> False) then False
        else True) (events (load now rejects traceId fs))"

definition persistTraceIndex ::
  "error option \<Rightarrow> int \<Rightarrow> string \<Rightarrow> loaded list \<Rightarrow> file_store \<Rightarrow> (error + unit) \<times> file_store" where
  "persistTraceIndex rejects now traceId evs fs =
     (case rejects of
        Some e \<Rightarrow> (Inl e, fs)
      | None \<Rightarrow>
          (Inr (), fs\<lparr>index_files := (index_files fs)(buildTraceIndex (cwd fs) traceId \<mapsto>
                         \<lparr>ix_traceId = traceId, total = length evs, updated_at = now\<rparr>)\<rparr>))"

record cleanup_env =
  rm_trace_rejects :: bool
  rm_index_rejects :: bool

text \<open>
  \<open>cleanup\<close>: both removals are started; a removal that rejects leaves its file, and the
  rejection is caught.
\<close>

definition cleanup :: "cleanup_env \<Rightarrow> string \<Rightarrow> file_store \<Rightarrow> file_store" where
  "cleanup env traceId fs =
     (let fs1 = (if rm_trace_rejects env then fs
                 else fs\<lparr>trace_files := (trace_files fs)(buildTracePath (cwd fs) traceId := None)\<rparr>)
      in if rm_index_rejects env then fs1
         else fs1\<lparr>index_files := (index_files fs1)(buildTraceIndex (cwd fs1) traceId := None)\<rparr>)"

section \<open>Policy adapters (src/policy/policy.ts)\<close>

record ActionDecision =
  allowed :: bool
  reason :: "string option"

datatype PolicyAdapter = PassthroughPolicy | DeterministicPolicy

fun policy_mode :: "PolicyAdapter \<Rightarrow> PolicyMode" where
  "policy_mode PassthroughPolicy = model_owns_action"
| "policy_mode DeterministicPolicy = deterministic"

definition truthy :: "string option \<Rightarrow> bool" where
  "truthy s = (case s of None \<Rightarrow> False | Some t \<Rightarrow> t \<noteq> [])"

text \<open>The regular expression \<open>/(^javascript:|^data:|^file:|^about:|^chrome:)/i\<close>.\<close>

definition unsafe_scheme :: "string \<Rightarrow> bool" where
  "unsafe_scheme u =
     list_ex (startsWith (toLowerCase u)) [''javascript:'', ''data:'', ''file:'', ''about:'', ''chrome:'']"

fun shouldAllowAction :: "PolicyAdapter \<Rightarrow> StatePacket option \<Rightarrow> ActionInput \<Rightarrow> ActionDecision" where
  "shouldAllowAction PassthroughPolicy state input = \<lparr>allowed = True, reason = None\<rparr>"
| "shouldAllowAction DeterministicPolicy state input =
     (if in_action input = Navigate \<and> truthy (in_url input) \<and> unsafe_scheme (the (in_url input))
      then \<lparr>allowed = False, reason = Some ''navigate to unsafe scheme blocked''\<rparr>
      else \<lparr>allowed = True, reason = None\<rparr>)"

definition createPolicyAdapter :: "PolicyMode \<Rightarrow> PolicyAdapter" where
  "createPolicyAdapter m = (if m = deterministic then DeterministicPolicy else PassthroughPolicy)"

section \<open>ActionExecutor (src/actions/driver.ts)\<close>

text \<open>
  The page driver is the environment: \<open>exec_env\<close> says how many nodes the selector
  resolves to, whether the driver calls of this action reject (and with what), whether
  the timer of \<open>withTimeout\<close> fires first, what the clock reads and where the page is.
\<close>

datatype thrown = ThrownError string | ThrownOther

record dispatch_result =
  dr_selector :: "string option"
  dr_coordinates :: "(int \<times> int) option"

record exec_env =
  locator_count :: nat
  driver_rejects :: "thrown option"
  timer_fires :: bool
  now_exec_start :: int
  now_event_id :: int
  now_event_time :: int
  now_exec_end :: int
  url_at_event :: string
  url_at_result :: string

definition driver_calls :: "exec_env \<Rightarrow> dispatch_result \<Rightarrow> thrown + dispatch_result" where
  "driver_calls env result = (case driver_rejects env of Some t \<Rightarrow> Inl t | None \<Rightarrow> Inr result)"

definition withElementOrCoordinate ::
  "exec_env \<Rightarrow> ActionInput \<Rightarrow> (thrown + dispatch_result) \<Rightarrow> (int \<Rightarrow> int \<Rightarrow> thrown + dispatch_result) \<Rightarrow>
   thrown + dispatch_result" where
  "withElementOrCoordinate env input withSelector withCoords =
     (let coords = (case (in_x input, in_y input) of
                      (Some x, Some y) \<Rightarrow> withCoords x y
                    | _ \<Rightarrow> Inl (ThrownError ''selector not found and coordinates missing''))
      in if truthy (in_selector input)
         then (case driver_rejects env of
                 Some t \<Rightarrow> Inl t
               | None \<Rightarrow> (if locator_count env > 0 then withSelector else coords))
         else coords)"

definition no_target :: dispatch_result where
  "no_target = \<lparr>dr_selector = None, dr_coordinates = None\<rparr>"

fun dispatch :: "AgentAction \<Rightarrow> ActionInput \<Rightarrow> exec_env \<Rightarrow> thrown + dispatch_result" where
  "dispatch Navigate input env =
     (if \<not> truthy (in_url input) then Inl (ThrownError ''navigate requires url'')
      else driver_calls env no_target)"
| "dispatch Click input env =
     withElementOrCoordinate env input
       (driver_calls env (no_target\<lparr>dr_selector := in_selector input\<rparr>))
       (\<lambda>x y. driver_calls env (no_target\<lparr>dr_coordinates := Some (x, y)\<rparr>))"
| "dispatch Hover input env =
     withElementOrCoordinate env input
       (driver_calls env (no_target\<lparr>dr_selector := in_selector input\<rparr>))
       (\<lambda>x y. driver_calls env (no_target\<lparr>dr_coordinates := Some (x, y)\<rparr>))"
| "dispatch Type input env =
     (if \<not> truthy (in_text input) then Inl (ThrownError ''type requires text'')
      else withElementOrCoordinate env input
             (driver_calls env (no_target\<lparr>dr_selector := in_selector input\<rparr>))
             (\<lambda>x y. driver_calls env (no_target\<lparr>dr_coordinates := Some (x, y)\<rparr>)))"
| "dispatch Press input env =
     (if \<not> truthy (in_key input) then Inl (ThrownError ''press requires key'')
      else driver_calls env no_target)"
| "dispatch Scroll input env = driver_calls env no_target"
| "dispatch Drag input env =
     (case (in_x input, in_y input, in_delta_x input, in_delta_y input) of
        (Some x, Some y, Some dx, Some dy) \<Rightarrow> driver_calls env (no_target\<lparr>dr_coordinates := Some (x, y)\<rparr>)
      | _ \<Rightarrow> Inl (ThrownError ''drag requires x, y, delta_x, delta_y''))"
| "dispatch Wait input env = driver_calls env no_target"
| "dispatch WaitFor input env =
     (if \<not> truthy (in_wait_for input) then Inl (ThrownError ''wait_for requires a selector or wait strategy'')
      else driver_calls env no_target)"

definition withTimeout :: "exec_env \<Rightarrow> int \<Rightarrow> (thrown + dispatch_result) \<Rightarrow> thrown + dispatch_result" where
  "withTimeout env timeoutMs outcome =
     (if timer_fires env then Inl (ThrownError (''action timeout after '' @ show_int timeoutMs @ ''ms''))
      else outcome)"

definition recordActionEvent ::
  "exec_env \<Rightarrow> ActionInput \<Rightarrow> NetworkEvent list \<Rightarrow> dispatch_result option \<Rightarrow> bool \<Rightarrow> string option \<Rightarrow>
   NetworkEvent list" where
  "recordActionEvent env input networkRing result ok detail' =
     (let pushed = networkRing @
            [\<lparr>ne_id = show_int (now_event_id env) @ '':'' @ action_name (in_action input),
              ne_url = url_at_event env,
              ne_method = action_name (in_action input),
              ne_status = Some (if ok then 200 else 0),
              ne_type = Some (if result \<noteq> None then ''action'' else ''action_failed''),
              ne_time = now_event_time env,
              failureText = (if ok then None else detail')\<rparr>]
      in if length pushed > 400 then tl pushed else pushed)"

definition execute :: "ActionInput \<Rightarrow> exec_env \<Rightarrow> NetworkEvent list \<Rightarrow> ActionResult \<times> NetworkEvent list" where
  "execute input env networkRing =
     (let action = in_action input;
          timeout = min (max (case in_timeout_ms input of None \<Rightarrow> 8000 | Some t \<Rightarrow> t) 100) 120000;
          start = now_exec_start env;
          maxActions = (case in_max_actions_per_step input of None \<Rightarrow> 1 | Some n \<Rightarrow> n)
      in if maxActions < 1 \<or> maxActions > 1
         then (\<lparr>ar_action = action, success = False, status = ''rejected'', ar_target = None,
                 ar_selector = None, coordinates = None,
                 detail = Some ''max_actions_per_step must be 1 in phase 1'', elapsed_ms = None\<rparr>,
               networkRing)
         else case withTimeout env (timeout + 300) (dispatch action input env) of
           Inr result \<Rightarrow>
             (\<lparr>ar_action = action, success = True, status = ''completed'',
               ar_target = Some (url_at_result env), ar_selector = dr_selector result,
               coordinates = dr_coordinates result, detail = None,
               elapsed_ms = Some (now_exec_end env - start)\<rparr>,
              recordActionEvent env input networkRing (Some result) True None)
         | Inl err \<Rightarrow>
             let message = (case err of ThrownError m \<Rightarrow> m | ThrownOther \<Rightarrow> ''action failed'')
             in (\<lparr>ar_action = action, success = False, status = ''failed'', ar_target = None,
                   ar_selector = None, coordinates = None, detail = Some message,
                   elapsed_ms = Some (now_exec_end env - start)\<rparr>,
                 recordActionEvent env input networkRing None False (Some message)))"

text \<open>
  The synthetic event of an executed action, as \<open>execute\<close> has \<open>recordActionEvent\<close>
  build it: after a dispatch that resolved (\<open>okay\<close>) and after one that rejected with
  the message \<open>d\<close>.
\<close>

definition action_event :: "exec_env \<Rightarrow> ActionInput \<Rightarrow> bool \<Rightarrow> string option \<Rightarrow> NetworkEvent" where
  "action_event env input okay d =
     \<lparr>ne_id = show_int (now_event_id env) @ '':'' @ action_name (in_action input),
      ne_url = url_at_event env,
      ne_method = action_name (in_action input),
      ne_status = Some (if okay then 200 else 0),
      ne_type = Some (if okay then ''action'' else ''action_failed''),
      ne_time = now_event_time env,
      failureText = (if okay then None else d)\<rparr>"

definition trim_to :: "nat \<Rightarrow> 'a list \<Rightarrow> 'a list" where
  "trim_to cap pushed = (if length pushed > cap then tl pushed else pushed)"

section \<open>BrowserSession (src/session/browser-session.ts)\<close>

definition DEFAULT_CAPTURE_MAX_FRAMES :: int where
  "DEFAULT_CAPTURE_MAX_FRAMES = 8"

definition DEFAULT_MAX_STEPS :: int where
  "DEFAULT_MAX_STEPS = 500"

definition DEFAULT_MAX_DURATION_MS :: int where
  "DEFAULT_MAX_DURATION_MS = 20 * 60 * 1000"

record BrowserSessionParams =
  bp_input :: SessionCreateInput
  bp_policy :: PolicyAdapter
  maxSteps :: int
  traceId :: string
  captureProfile :: CaptureProfile
  bp_headless :: bool
  bp_viewport :: "(int \<times> int) option"
  storageState :: "string option"
  bp_maxFrames :: int
  maxDurationMs :: "int option"

text \<open>
  A session object. \<open>has_browser\<close>, \<open>has_context\<close>, \<open>has_page\<close> and
  \<open>has_actionExecutor\<close> say whether the field holds a reference; \<open>page_open\<close>,
  \<open>context_open\<close> and \<open>browser_open\<close> are the driver's side of the resources the
  session owns (a \<open>close()\<close> that resolves releases the resource).
\<close>

record BrowserSession =
  bs_id :: string
  params :: BrowserSessionParams
  has_browser :: bool
  has_context :: bool
  has_page :: bool
  browser_open :: bool
  context_open :: bool
  page_open :: bool
  captureCoordinator :: "CaptureCoordinator option"
  stateBuilder :: "StateBuilder option"
  has_actionExecutor :: bool
  networkEvents :: "NetworkEvent list"
  requestId :: nat
  active :: bool
  stepIndex :: int
  createdAt :: int
  lastFrame :: "FrameRef option"

text \<open>The objects of the process a session writes to: the traces directory and the metrics.\<close>

record shared =
  files :: file_store
  metrics :: MetricsCollector

record session_config =
  sc_policy :: PolicyAdapter
  sc_captureProfile :: CaptureProfile
  sc_maxSteps :: "int option"
  sc_traceId :: string
  sc_headless :: bool
  sc_viewport :: "(int \<times> int) option"
  sc_storageState :: "string option"
  sc_maxFrames :: int
  sc_maxDurationMs :: "int option"

text \<open>The constructor reads the clock for \<open>createdAt\<close>: \<open>now\<close>.\<close>

definition createBrowserSession ::
  "string \<Rightarrow> SessionCreateInput \<Rightarrow> session_config \<Rightarrow> int \<Rightarrow> BrowserSession" where
  "createBrowserSession sid input config now =
     \<lparr>bs_id = sid,
      params = \<lparr>bp_input = input, bp_policy = sc_policy config,
                maxSteps = (case sc_maxSteps config of None \<Rightarrow> DEFAULT_MAX_STEPS | Some n \<Rightarrow> n),
                traceId = sc_traceId config, captureProfile = sc_captureProfile config,
                bp_headless = sc_headless config, bp_viewport = sc_viewport config,
                storageState = sc_storageState config, bp_maxFrames = sc_maxFrames config,
                maxDurationMs = sc_maxDurationMs config\<rparr>,
      has_browser = False, has_context = False, has_page = False,
      browser_open = False, context_open = False, page_open = False,
      captureCoordinator = None, stateBuilder = None, has_actionExecutor = False,
      networkEvents = [], requestId = 0, active = False, stepIndex = 0, createdAt = now,
      lastFrame = None\<rparr>"

definition getDefaultMaxFrames :: "CaptureProfile \<Rightarrow> int option \<Rightarrow> int" where
  "getDefaultMaxFrames profile requestMax =
     (let cap = (case requestMax of
                   None \<Rightarrow> DEFAULT_CAPTURE_MAX_FRAMES
                 | Some n \<Rightarrow> (if n \<noteq> 0 then min 20 (max 2 n) else DEFAULT_CAPTURE_MAX_FRAMES))
      in if profile = frames_only then cap else min 12 (max 3 cap))"

text \<open>The three network handlers registered on the context by \<open>start\<close>.\<close>

datatype net_signal =
    OnRequest string string string
  | OnResponse string string int string
  | OnRequestFailed string string string "string option"

record net_arrival =
  net_signal :: net_signal
  now_net_id :: int
  now_net_time :: int

definition on_network :: "BrowserSession \<Rightarrow> net_arrival \<Rightarrow> BrowserSession" where
  "on_network s a =
     (let n = requestId s + 1;
          suffix = show_int (now_net_id a) @ ''_'' @ show_nat n;
          event =
            (case net_signal a of
               OnRequest u m t \<Rightarrow>
                 \<lparr>ne_id = ''r_'' @ suffix, ne_url = u, ne_method = m, ne_status = None,
                  ne_type = Some t, ne_time = now_net_time a, failureText = None\<rparr>
             | OnResponse u m st t \<Rightarrow>
                 \<lparr>ne_id = ''p_'' @ suffix, ne_url = u, ne_method = m, ne_status = Some st,
                  ne_type = Some t, ne_time = now_net_time a, failureText = None\<rparr>
             | OnRequestFailed u m t ft \<Rightarrow>
                 \<lparr>ne_id = ''f_'' @ suffix, ne_url = u, ne_method = m, ne_status = Some 0,
                  ne_type = Some t, ne_time = now_net_time a, failureText = ft\<rparr>);
          pushed = networkEvents s @ [event]
      in s\<lparr>requestId := n, networkEvents := (if length pushed > 500 then tl pushed else pushed)\<rparr>)"

definition session_buildStateSnapshot ::
  "(token_seed \<Rightarrow> string) \<Rightarrow> ObserveOptions \<Rightarrow> page_obs \<Rightarrow> BrowserSession \<Rightarrow>
   error + (StatePacket \<times> BrowserSession)" where
  "session_buildStateSnapshot sha1_hex capture obs s =
     (case stateBuilder s of
        None \<Rightarrow> Inl (Error ''state builder not initialized'')
      | Some sb \<Rightarrow>
          (case captureCoordinator s of
             None \<Rightarrow> Inl (Error ''TypeError'')
           | Some coordinator \<Rightarrow>
               (case buildStateSnapshot sha1_hex capture obs (networkEvents s) coordinator sb of
                  Inl e \<Rightarrow> Inl e
                | Inr (state, sb') \<Rightarrow> Inr (withSessionId state (bs_id s), s\<lparr>stateBuilder := Some sb'\<rparr>))))"

definition buildCapabilities :: "BrowserSession \<Rightarrow> SessionCapabilities" where
  "buildCapabilities s =
     \<lparr>cap_capture_profile = captureProfile (params s),
      cap_max_steps = maxSteps (params s),
      cap_max_duration_ms = (case maxDurationMs (params s) of None \<Rightarrow> DEFAULT_MAX_DURATION_MS | Some d \<Rightarrow> d),
      cap_policy = policy_mode (bp_policy (params s)),
      dom_first = True,
      frame_capture = (captureProfile (params s) \<noteq> dom_only)\<rparr>"

definition normalizeCaptureSettings :: "BrowserSessionParams \<Rightarrow> CaptureSettingsInput option \<Rightarrow> ObserveOptions" where
  "normalizeCaptureSettings p input =
     (case input of
        None \<Rightarrow>
          \<lparr>includeDom = (captureProfile p \<noteq> frames_only),
           includeAx = (captureProfile p \<noteq> frames_only),
           includeNetwork = True,
           includeFrame = (captureProfile p \<noteq> dom_only),
           maxFrames = Some (bp_maxFrames p)\<rparr>
      | Some i \<Rightarrow>
          let hasAny = (include_dom i = Some True \<or> include_ax i = Some True
                         \<or> include_frame i = Some True \<or> include_network i = Some True)
          in if \<not> hasAny
             then \<lparr>includeDom = (captureProfile p \<noteq> frames_only),
                   includeAx = (captureProfile p \<noteq> frames_only),
                   includeNetwork = True,
                   includeFrame = (captureProfile p \<noteq> dom_only),
                   maxFrames = max_frames i\<rparr>
             else \<lparr>includeDom = (include_dom i = Some True),
                   includeAx = (include_ax i = Some True),
                   includeNetwork = (include_network i = Some True),
                   includeFrame = (include_frame i = Some True),
                   maxFrames = max_frames i\<rparr>)"

record record_env =
  read_rejects :: bool
  now_load :: int
  now_at :: int
  append_rejects :: "error option"
  now_index :: int
  persist_rejects :: "error option"

definition recordReplayEvent ::
  "record_env \<Rightarrow> string \<Rightarrow> replay_type \<Rightarrow> replay_payload \<Rightarrow> file_store \<Rightarrow> (error + unit) \<times> file_store" where
  "recordReplayEvent env tid type payload fs =
     (let existing = load (now_load env) (read_rejects env) tid fs;
          nextIndex = int (length (events existing));
          event = \<lparr>ev_type = type, ev_index = nextIndex + 1, ev_at = now_at env, ev_payload = payload\<rparr>
      in case append (append_rejects env) tid event fs of
           (Inl e, fs1) \<Rightarrow> (Inl e, fs1)
         | (Inr _, fs1) \<Rightarrow>
             persistTraceIndex (persist_rejects env) (now_index env) tid
               (events existing @ [IsEvent event]) fs1)"

text \<open>
  The appends of a session to its trace, one after the other: each call is what the
  environment does during it, the type and the payload. A call whose append or index
  write rejects leaves the store as the rejection leaves it, and the next call goes on.
  \<open>appended_events n calls\<close> lists the events these calls write to a trace that holds
  \<open>n\<close> entries, with the index each one is given: one more than the number of entries
  the call has loaded. A call loads the \<open>n\<close> entries of the file, and no entry when its
  read was rejected.
\<close>

definition trace_lines :: "string \<Rightarrow> file_store \<Rightarrow> trace_line list" where
  "trace_lines tid fs =
     (case trace_files fs (buildTracePath (cwd fs) tid) of None \<Rightarrow> [] | Some ls \<Rightarrow> ls)"

fun record_all :: "string \<Rightarrow> (record_env \<times> replay_type \<times> replay_payload) list \<Rightarrow> file_store \<Rightarrow> file_store" where
  "record_all tid [] fs = fs"
| "record_all tid ((env, type, payload) # calls) fs =
     record_all tid calls (snd (recordReplayEvent env tid type payload fs))"

fun appended_events :: "nat \<Rightarrow> (record_env \<times> replay_type \<times> replay_payload) list \<Rightarrow> ReplayEvent list" where
  "appended_events n [] = []"
| "appended_events n ((env, type, payload) # calls) =
     (if append_rejects env = None
      then \<lparr>ev_type = type, ev_index = (if read_rejects env then 0 else int n) + 1,
             ev_at = now_at env, ev_payload = payload\<rparr>
             # appended_events (Suc n) calls
      else appended_events n calls)"

definition reads_succeed :: "(record_env \<times> replay_type \<times> replay_payload) list \<Rightarrow> bool" where
  "reads_succeed calls = list_all (\<lambda>call. \<not> read_rejects (fst call)) calls"

definition in_range :: "int option \<Rightarrow> int option \<Rightarrow> int \<Rightarrow> bool" where
  "in_range start endIndex i =
     ((case start of None \<Rightarrow> True | Some a \<Rightarrow> a \<le> i) \<and> (case endIndex of None \<Rightarrow> True | Some b \<Rightarrow> i \<le> b))"

definition shouldRetry :: "ActionResult \<Rightarrow> bool" where
  "shouldRetry result =
     (if \<not> success result
      then (case detail result of None \<Rightarrow> True | Some d \<Rightarrow> \<not> includes_str (toLowerCase d) ''timeout'')
      else False)"

record start_env =
  launch_rejects :: "error option"
  newContext_rejects :: "error option"
  newPage_rejects :: "error option"
  cdp_start :: cdp_start_env
  route_rejects :: "error option"
  arrivals_during_goto :: "net_arrival list"
  goto_rejects :: "error option"
  now_started :: int
  initial_obs :: page_obs
  create_record :: record_env

definition start ::
  "(token_seed \<Rightarrow> string) \<Rightarrow> start_env \<Rightarrow> BrowserSession \<Rightarrow> shared \<Rightarrow>
   (error + CreateResult) \<times> BrowserSession \<times> shared" where
  "start sha1_hex env s sh =
     (if active s then (Inl (Error ''session already started''), s, sh)
      else (case launch_rejects env of
        Some e \<Rightarrow> (Inl e, s, sh)
      | None \<Rightarrow>
      (let s1 = s\<lparr>has_browser := True, browser_open := True\<rparr>
       in (case newContext_rejects env of
        Some e \<Rightarrow> (Inl e, s1, sh)
      | None \<Rightarrow>
      (let s2 = s1\<lparr>has_context := True, context_open := True\<rparr>
       in (case newPage_rejects env of
        Some e \<Rightarrow> (Inl e, s2, sh)
      | None \<Rightarrow>
      (let s3 = s2\<lparr>has_page := True, page_open := True, networkEvents := []\<rparr>;
           includeFrames = (captureProfile (params s) \<noteq> dom_only);
           (started, coordinator) =
             cc_start (cdp_start env)
               (new_CaptureCoordinator
                  \<lparr>fo_enabled = includeFrames, fo_traceId = traceId (params s), fo_sessionId = bs_id s,
                   frameQuality = 65,
                   fo_maxWidth = map_option fst (bp_viewport (params s)),
                   fo_maxHeight = map_option snd (bp_viewport (params s)),
                   fo_maxFrames = bp_maxFrames (params s),
                   fo_adaptive = (captureProfile (params s) = adaptive),
                   fo_traceDir = ''traces/'' @ traceId (params s)\<rparr>);
           s4 = s3\<lparr>captureCoordinator := Some coordinator\<rparr>
       in (case started of
        Inl e \<Rightarrow> (Inl e, s4, sh)
      | Inr _ \<Rightarrow>
      (let s5 = s4\<lparr>has_actionExecutor := True, stateBuilder := Some new_StateBuilder\<rparr>
       in (case route_rejects env of
        Some e \<Rightarrow> (Inl e, s5, sh)
      | None \<Rightarrow>
      (let s6 = foldl on_network s5 (arrivals_during_goto env)
       in (case goto_rejects env of
        Some e \<Rightarrow> (Inl e, s6, sh)
      | None \<Rightarrow>
      (let s7 = s6\<lparr>active := True, createdAt := now_started env\<rparr>
       in (case session_buildStateSnapshot sha1_hex
                \<lparr>includeDom = (captureProfile (params s) \<noteq> frames_only), includeAx = True,
                 includeNetwork = True, includeFrame = includeFrames,
                 maxFrames = Some (bp_maxFrames (params s))\<rparr> (initial_obs env) s7 of
        Inl e \<Rightarrow> (Inl e, s7, sh)
      | Inr (initialState, s8) \<Rightarrow>
          (case recordReplayEvent (create_record env) (traceId (params s)) ev_create
                  (CreatePayload (bs_id s) initialState (buildCapabilities s8)) (files sh) of
             (Inl e, fs1) \<Rightarrow> (Inl e, s8, sh\<lparr>files := fs1\<rparr>)
           | (Inr _, fs1) \<Rightarrow>
               (Inr \<lparr>cr_session_id = bs_id s, cr_trace_id = traceId (params s),
                     session_capabilities = buildCapabilities s8,
                     initial_state_snapshot = initialState, frame_ref = lastFrame s8\<rparr>,
                s8, sh\<lparr>files := fs1\<rparr>))))))))))))))))"

record step_env =
  now_budget :: int
  now_stepStart :: int
  pre_obs :: page_obs
  now_denied_elapsed :: int
  now_denied_latency :: int
  arrivals_during_action :: "net_arrival list"
  exec :: exec_env
  now_drift :: int
  arrivals_before_post :: "net_arrival list"
  post_obs :: page_obs
  now_latency :: int
  now_touch :: int
  step_record :: record_env

text \<open>
  \<open>step\<close> is one function in the source; the model names three of its blocks. The
  object returned when the policy denies:
\<close>

definition policy_denied_result ::
  "ActionInput \<Rightarrow> ActionDecision \<Rightarrow> StatePacket \<Rightarrow> int \<Rightarrow> int \<Rightarrow> StepResult" where
  "policy_denied_result input preDecision beforeState elapsed latency =
     \<lparr>sr_state = beforeState, sr_frame_refs = frame_refs beforeState,
      action_result =
        \<lparr>ar_action = in_action input, success = False, status = ''policy_denied'',
         ar_target = None, ar_selector = None, coordinates = None,
         detail = Some (case reason preDecision of
                          None \<Rightarrow> ''action blocked by policy'' | Some r \<Rightarrow> r),
         elapsed_ms = Some elapsed\<rparr>,
      error_codes = [''POLICY_DENIED''],
      next_recommendation = ''halt'',
      latency_ms = latency,
      sr_queue_health = queue_health beforeState\<rparr>"

text \<open>
  The action: \<open>execute\<close> on the session's network array, the failure metric, the drift
  signal. The network handlers run between the awaits: \<open>arrivals_during_action\<close> are
  the events they push before the executor records its own, \<open>arrivals_before_post\<close>
  those they push after it and before the post-state reads the array.
\<close>

definition run_action ::
  "ActionInput \<Rightarrow> step_env \<Rightarrow> BrowserSession \<Rightarrow> shared \<Rightarrow> ActionResult \<times> BrowserSession \<times> shared" where
  "run_action input env s1 sh =
     (let s2 = foldl on_network s1 (arrivals_during_action env);
          (actionResult, ring) = execute input (exec env) (networkEvents s2);
          s3 = s2\<lparr>networkEvents := ring\<rparr>;
          sh1 = (if \<not> success actionResult
                 then sh\<lparr>metrics := recordActionFailure (metrics sh)\<rparr> else sh);
          s4 = (if in_action input = WaitFor \<or> in_action input = Wait
                then s3\<lparr>captureCoordinator :=
                          map_option (signalVisualDrift (now_drift env)) (captureCoordinator s3)\<rparr>
                else s3);
          s5 = foldl on_network s4 (arrivals_before_post env)
      in (actionResult, s5, sh1))"

text \<open>The step result, with \<open>NO_NETWORK_EVENT\<close> pushed when the post-state has no event.\<close>

definition compose_step_result :: "ActionResult \<Rightarrow> StatePacket \<Rightarrow> int \<Rightarrow> StepResult" where
  "compose_step_result actionResult state latency =
     (let stepResult =
            \<lparr>sr_state = state, sr_frame_refs = frame_refs state,
             action_result = actionResult,
             error_codes = (if success actionResult then [] else [''ACTION_FAILED'']),
             next_recommendation =
               (if success actionResult then ''continue''
                else if shouldRetry actionResult then ''retry''
                else ''fallback_or_abandon''),
             latency_ms = latency,
             sr_queue_health = queue_health state\<rparr>
      in if length (network_events (sr_state stepResult)) = 0
         then stepResult\<lparr>error_codes := error_codes stepResult @ [''NO_NETWORK_EVENT'']\<rparr>
         else stepResult)"

definition step ::
  "(token_seed \<Rightarrow> string) \<Rightarrow> ActionInput \<Rightarrow> step_env \<Rightarrow> BrowserSession \<Rightarrow> shared \<Rightarrow>
   (error + StepResult) \<times> BrowserSession \<times> shared" where
  "step sha1_hex input env s sh =
     (if \<not> active s \<or> \<not> has_page s \<or> \<not> has_actionExecutor s \<or> stateBuilder s = None
      then (Inl (Error ''session is not active''), s, sh)
      else if stepIndex s \<ge> maxSteps (params s)
      then (Inl (Error (''max_steps reached: '' @ show_int (maxSteps (params s)))), s, sh)
      else if now_budget env - createdAt s >
              (case maxDurationMs (params s) of None \<Rightarrow> DEFAULT_MAX_DURATION_MS | Some d \<Rightarrow> d)
      then (Inl (Error ''session exceeded max_duration_ms''), s, sh)
      else
        let stepStart = now_stepStart env;
            captureSettings = normalizeCaptureSettings (params s) (in_capture input)
        in (case session_buildStateSnapshot sha1_hex captureSettings (pre_obs env) s of
          Inl e \<Rightarrow> (Inl e, s, sh)
        | Inr (beforeState, s1) \<Rightarrow>
            let preDecision = shouldAllowAction (bp_policy (params s1)) (Some beforeState) input
            in if \<not> allowed preDecision
               then (Inr (policy_denied_result input preDecision beforeState
                            (now_denied_elapsed env - stepStart) (now_denied_latency env - stepStart)),
                     s1, sh)
               else
                 let (actionResult, s5, sh1) = run_action input env s1 sh
                 in (case session_buildStateSnapshot sha1_hex captureSettings (post_obs env) s5 of
                   Inl e \<Rightarrow> (Inl e, s5, sh1)
                 | Inr (state, s6) \<Rightarrow>
                     let latency = now_latency env - stepStart;
                         s7 = s6\<lparr>stepIndex := stepIndex s6 + 1, createdAt := now_touch env\<rparr>;
                         sh2 = sh1\<lparr>metrics := recordStepLatency latency (metrics sh1)\<rparr>;
                         stepResult = compose_step_result actionResult state latency
                     in (case recordReplayEvent (step_record env) (traceId (params s)) ev_step
                                (StepPayload stepResult) (files sh2) of
                           (Inl e, fs1) \<Rightarrow> (Inl e, s7, sh2\<lparr>files := fs1\<rparr>)
                         | (Inr _, fs1) \<Rightarrow> (Inr stepResult, s7, sh2\<lparr>files := fs1\<rparr>)))))"

record snapshot_env =
  snap_obs :: page_obs
  snap_record :: record_env

definition snapshot ::
  "(token_seed \<Rightarrow> string) \<Rightarrow> SnapshotInput \<Rightarrow> snapshot_env \<Rightarrow> BrowserSession \<Rightarrow> shared \<Rightarrow>
   (error + StatePacket) \<times> BrowserSession \<times> shared" where
  "snapshot sha1_hex input env s sh =
     (case session_buildStateSnapshot sha1_hex
             \<lparr>includeDom = (sn_include_dom input = Some True),
              includeAx = (sn_include_ax input = Some True),
              includeNetwork = (sn_include_network input = Some True),
              includeFrame = (sn_include_frame input = Some True),
              maxFrames = Some (bp_maxFrames (params s))\<rparr> (snap_obs env) s of
        Inl e \<Rightarrow> (Inl e, s, sh)
      | Inr (state, s1) \<Rightarrow>
          (case recordReplayEvent (snap_record env) (traceId (params s)) ev_snapshot
                  (SnapshotPayload state) (files sh) of
             (Inl e, fs1) \<Rightarrow> (Inl e, s1, sh\<lparr>files := fs1\<rparr>)
           | (Inr _, fs1) \<Rightarrow> (Inr state, s1, sh\<lparr>files := fs1\<rparr>)))"

record teardown_env =
  cdp_stop :: cdp_stop_env
  page_close_rejects :: bool
  context_close_rejects :: bool
  browser_close_rejects :: bool
  stop_record :: record_env
  stop_cleanup :: cleanup_env

record StopOutcome =
  so_status :: string
  so_cleanup :: string
  so_tracePath :: string
  so_sessionId :: string

text \<open>
  \<open>stop\<close>. Every awaited call of the teardown has its rejection caught
  (\<open>.catch(() => undefined)\<close>), so \<open>stop\<close> itself never rejects: it has no error result.
\<close>

definition stop ::
  "bool \<Rightarrow> teardown_env \<Rightarrow> BrowserSession \<Rightarrow> shared \<Rightarrow> StopOutcome \<times> BrowserSession \<times> shared" where
  "stop preserveArtifacts env s sh =
     (if \<not> active s
      then (\<lparr>so_status = ''already_stopped'', so_cleanup = ''noop'',
              so_tracePath = buildTracePath (cwd (files sh)) (traceId (params s)), so_sessionId = bs_id s\<rparr>, s, sh)
      else
        let s1 = s\<lparr>active := False\<rparr>;
            s2 = s1\<lparr>captureCoordinator := map_option (cc_stop (cdp_stop env)) (captureCoordinator s1)\<rparr>;
            s3 = (if has_page s2 \<and> page_open s2
                  then (if page_close_rejects env then s2 else s2\<lparr>page_open := False\<rparr>) else s2);
            s4 = (if has_context s3
                  then (if context_close_rejects env then s3 else s3\<lparr>context_open := False\<rparr>) else s3);
            s5 = (if has_browser s4
                  then (if browser_close_rejects env then s4 else s4\<lparr>browser_open := False\<rparr>) else s4);
            fs1 = snd (recordReplayEvent (stop_record env) (traceId (params s)) ev_stop
                         (StopPayload (bs_id s) preserveArtifacts) (files sh));
            fs2 = (if \<not> preserveArtifacts then cleanup (stop_cleanup env) (traceId (params s)) fs1 else fs1)
        in (\<lparr>so_status = ''stopped'',
              so_cleanup = (if preserveArtifacts then ''retained'' else ''cleaned''),
              so_tracePath = buildTracePath (cwd (files sh)) (traceId (params s)), so_sessionId = bs_id s\<rparr>,
            s5, sh\<lparr>files := fs2\<rparr>))"

definition getLastActivity :: "BrowserSession \<Rightarrow> int" where
  "getLastActivity s = createdAt s"

section \<open>URL validation (src/security/validator.ts)\<close>

text \<open>
  \<open>new URL(targetUrl)\<close> is the platform's parser: the parameter \<open>parse\<close> gives the
  protocol and the host name of a string, or \<open>None\<close> where the constructor throws.
\<close>

record ValidationError =
  code :: string
  message :: string

record ValidationResult =
  ok :: bool
  errors :: "ValidationError list"

definition host_matches :: "string \<Rightarrow> string list \<Rightarrow> bool" where
  "host_matches host entries =
     list_ex (\<lambda>entry. host = entry \<or> endsWith host (''.'' @ entry))
       (filter (\<lambda>v. v \<noteq> []) (map (\<lambda>v. toLowerCase (trim v)) entries))"

definition validateUrl ::
  "(string \<Rightarrow> (string \<times> string) option) \<Rightarrow> string \<Rightarrow> string list option \<Rightarrow> string list option \<Rightarrow>
   ValidationResult" where
  "validateUrl parse targetUrl explicitAllowlist explicitDenylist =
     (let errs =
        (case parse targetUrl of
           None \<Rightarrow> [\<lparr>code = ''INVALID_URL'', message = ''Unable to parse URL''\<rparr>]
         | Some (scheme, hostname) \<Rightarrow>
             let host = toLowerCase hostname
             in (if scheme \<notin> set [''http:'', ''https:'']
                 then [\<lparr>code = ''INVALID_SCHEME'', message = ''Unsupported scheme: '' @ scheme\<rparr>] else [])
              @ (if scheme @ ''//'' \<in> set [''chrome://'', ''file://'', ''about:'']
                 then [\<lparr>code = ''DISALLOWED_SCHEME'', message = ''Blocked scheme: '' @ scheme\<rparr>] else [])
              @ (case explicitAllowlist of
                   None \<Rightarrow> []
                 | Some al \<Rightarrow>
                     (if length al > 0 \<and> \<not> host_matches host al
                      then [\<lparr>code = ''DOMAIN_NOT_ALLOWED'',
                             message = ''Host '' @ host @ '' not in allowlist''\<rparr>] else []))
              @ (case explicitDenylist of
                   None \<Rightarrow> []
                 | Some dl \<Rightarrow>
                     (if length dl > 0 \<and> host_matches host dl
                      then [\<lparr>code = ''DOMAIN_DENIED'', message = ''Host '' @ host @ '' is denied''\<rparr>]
                      else [])))
      in \<lparr>ok = (length errs = 0), errors = errs\<rparr>)"

fun join_with :: "string \<Rightarrow> string list \<Rightarrow> string" where
  "join_with sep [] = []"
| "join_with sep [x] = x"
| "join_with sep (x # y # ys) = x @ sep @ join_with sep (y # ys)"

section \<open>SessionManager (src/session/session-manager.ts)\<close>

text \<open>
  The manager's two \<open>Map\<close>s keep insertion order, and \<open>set\<close> on a key that is present
  keeps its place. \<open>sessions\<close> maps an id to a reference to a session object: the model
  keeps the session objects in the store \<open>objects\<close>, each under the id it is registered
  with, and \<open>sessions\<close> is the list of the keys of the \<open>Map\<close>. A caller that holds a
  reference to a session (the tool handler does) reads and writes the same object.
  \<open>created\<close> is the \<open>Map\<close> of the time each session was created or last touched.
\<close>

record world =
  objects :: "string \<rightharpoonup> BrowserSession"
  sessions :: "string list"
  created :: "(string \<times> int) list"
  maxSessions :: int
  defaultHeadless :: bool
  allowedDomains :: "string list"
  deniedDomains :: "string list"
  maxAgeMs :: int
  policyMode :: PolicyMode
  shared_state :: shared

fun map_set :: "'k \<Rightarrow> 'v \<Rightarrow> ('k \<times> 'v) list \<Rightarrow> ('k \<times> 'v) list" where
  "map_set k v [] = [(k, v)]"
| "map_set k v ((k', v') # m) = (if k' = k then (k, v) # m else (k', v') # map_set k v m)"

definition map_delete :: "'k \<Rightarrow> ('k \<times> 'v) list \<Rightarrow> ('k \<times> 'v) list" where
  "map_delete k m = filter (\<lambda>entry. fst entry \<noteq> k) m"

definition key_set :: "'k \<Rightarrow> 'k list \<Rightarrow> 'k list" where
  "key_set k ks = (if k \<in> set ks then ks else ks @ [k])"

definition get :: "world \<Rightarrow> string \<Rightarrow> BrowserSession option" where
  "get w sessionId = (if sessionId \<in> set (sessions w) then objects w sessionId else None)"

definition manager_stop :: "string \<Rightarrow> bool \<Rightarrow> teardown_env \<Rightarrow> world \<Rightarrow> world" where
  "manager_stop sessionId preserveArtifacts env w =
     (case get w sessionId of
        None \<Rightarrow> w
      | Some session \<Rightarrow>
          (let (outcome, session', sh') = stop preserveArtifacts env session (shared_state w)
           in w\<lparr>objects := (objects w)(sessionId \<mapsto> session'),
                shared_state := sh',
                sessions := removeAll sessionId (sessions w),
                created := map_delete sessionId (created w)\<rparr>))"

text \<open>
  \<open>gc\<close>: the loop over \<open>this.created.entries()\<close>. The body deletes no key but the one
  it is visiting, so the entries visited are those the \<open>Map\<close> had when the loop began.
  \<open>envs\<close> gives, for each session, what the driver and the file system do during its
  teardown.
\<close>

fun gc_loop :: "int \<Rightarrow> (string \<Rightarrow> teardown_env) \<Rightarrow> (string \<times> int) list \<Rightarrow> nat \<Rightarrow> world \<Rightarrow> nat \<times> world" where
  "gc_loop now envs [] removed w = (removed, w)"
| "gc_loop now envs ((sessionId, startedAt) # rest) removed w =
     (if now - startedAt \<le> maxAgeMs w then gc_loop now envs rest removed w
      else gc_loop now envs rest (removed + 1) (manager_stop sessionId False (envs sessionId) w))"

definition gc :: "int \<Rightarrow> (string \<Rightarrow> teardown_env) \<Rightarrow> world \<Rightarrow> nat \<times> world" where
  "gc now envs w = gc_loop now envs (created w) 0 w"

text \<open>
  What a \<open>Map\<close> guarantees and what \<open>create\<close>, \<open>stop\<close> and \<open>touch\<close> maintain: the
  keys of each \<open>Map\<close> are distinct, both have the same keys, and every key of
  \<open>sessions\<close> has its session object. \<open>expired now w\<close> lists, in the order of the
  \<open>Map\<close>, the sessions whose last touch is more than \<open>maxAgeMs\<close> before \<open>now\<close>.
\<close>

definition wf_registry :: "world \<Rightarrow> bool" where
  "wf_registry w =
     (distinct (map fst (created w)) \<and> distinct (sessions w)
      \<and> set (map fst (created w)) = set (sessions w)
      \<and> list_all (\<lambda>k. objects w k \<noteq> None) (sessions w))"

definition expired :: "int \<Rightarrow> world \<Rightarrow> string list" where
  "expired now w = map fst (filter (\<lambda>entry. now - snd entry > maxAgeMs w) (created w))"

definition getActiveSessionsCount :: "world \<Rightarrow> nat" where
  "getActiveSessionsCount w = length (sessions w)"

definition touch :: "string \<Rightarrow> int \<Rightarrow> world \<Rightarrow> world" where
  "touch sessionId now w =
     (if sessionId \<in> set (sessions w) then w\<lparr>created := map_set sessionId now (created w)\<rparr> else w)"

text \<open>\<open>Array.prototype.sort\<close> is stable, as \<open>sort_key\<close> is.\<close>

definition getOldestSessionId :: "world \<Rightarrow> string option" where
  "getOldestSessionId w = (case sort_key snd (created w) of [] \<Rightarrow> None | oldest # _ \<Rightarrow> Some (fst oldest))"

record create_env =
  evict_teardown :: teardown_env
  parse_url :: "string \<Rightarrow> (string \<times> string) option"
  randomUUID :: string
  now_traceId :: int
  now_constructed :: int
  session_start :: start_env
  now_registered :: int

definition create ::
  "(token_seed \<Rightarrow> string) \<Rightarrow> SessionCreateInput \<Rightarrow> create_env \<Rightarrow> world \<Rightarrow> (error + CreateResult) \<times> world" where
  "create sha1_hex input env w =
     (let w1 = (if int (length (sessions w)) \<ge> maxSessions w
                then (case getOldestSessionId w of
                        None \<Rightarrow> w
                      | Some oldest \<Rightarrow>
                          (if oldest \<noteq> [] then manager_stop oldest False (evict_teardown env) w else w))
                else w);
          urlValidation = validateUrl (parse_url env) (target_url input)
                            (Some (allowedDomains w1)) (Some (deniedDomains w1))
      in if \<not> ok urlValidation
         then (Inl (Error (join_with ''; '' (map (\<lambda>item. code item @ '':'' @ message item)
                                                (errors urlValidation)))), w1)
         else
           (let sessionId = randomUUID env;
                tid = ''trace_'' @ show_int (now_traceId env) @ ''_'' @ sessionId;
                profile = (case capture_profile input of None \<Rightarrow> adaptive | Some p \<Rightarrow> p);
                frames = getDefaultMaxFrames profile (max_steps input);
                policy = createPolicyAdapter (case c_policy input of None \<Rightarrow> policyMode w1 | Some m \<Rightarrow> m);
                session = createBrowserSession sessionId input
                            \<lparr>sc_policy = policy, sc_captureProfile = profile,
                             sc_maxSteps = max_steps input, sc_traceId = tid,
                             sc_headless = (case c_headless input of None \<Rightarrow> defaultHeadless w1 | Some h \<Rightarrow> h),
                             sc_viewport = c_viewport input, sc_storageState = storage_state input,
                             sc_maxFrames = frames, sc_maxDurationMs = max_duration_ms input\<rparr>
                            (now_constructed env);
                (result, session', sh') = start sha1_hex (session_start env) session (shared_state w1)
            in (case result of
                  Inl e \<Rightarrow> (Inl e, w1\<lparr>shared_state := sh'\<rparr>)
                | Inr r \<Rightarrow>
                    (Inr r, w1\<lparr>objects := (objects w1)(sessionId \<mapsto> session'),
                               shared_state := sh',
                               sessions := key_set sessionId (sessions w1),
                               created := map_set sessionId (now_registered env) (created w1)\<rparr>))))"

section \<open>ToolHandler (src/tools.ts)\<close>

text \<open>
  The arguments of a tool call arrive as JSON. The raw records below are JSON objects
  whose fields, where present, have the JSON type the schema asks for; the parser then
  checks presence and the length of \<open>session_id\<close>.
\<close>

record raw_stop =
  raw_session_id :: "string option"
  raw_preserve_artifacts :: "bool option"

definition parse_stop :: "raw_stop \<Rightarrow> error + StopInput" where
  "parse_stop raw =
     (case raw_session_id raw of
        None \<Rightarrow> Inl (InvalidToolArguments [''session_id''])
      | Some sid \<Rightarrow>
          (if length sid < 1 then Inl (InvalidToolArguments [''session_id''])
           else Inr \<lparr>st_session_id = sid, preserve_artifacts = raw_preserve_artifacts raw\<rparr>))"

record tool_stop_env =
  session_teardown :: teardown_env
  manager_teardown :: teardown_env

definition tool_stop :: "raw_stop \<Rightarrow> tool_stop_env \<Rightarrow> world \<Rightarrow> (error + SessionStopResult) \<times> world" where
  "tool_stop raw env w =
     (case parse_stop raw of
        Inl e \<Rightarrow> (Inl e, w)
      | Inr input \<Rightarrow>
          (case get w (st_session_id input) of
             None \<Rightarrow> (Inl (Error (''Unknown session_id: '' @ st_session_id input)), w)
           | Some session \<Rightarrow>
               (let preserve = (preserve_artifacts input = Some True);
                    (outcome, session', sh') = stop preserve (session_teardown env) session (shared_state w);
                    w1 = w\<lparr>objects := (objects w)(st_session_id input \<mapsto> session'), shared_state := sh'\<rparr>;
                    w2 = manager_stop (st_session_id input) preserve (manager_teardown env) w1
                in (Inr \<lparr>ssr_session_id = st_session_id input,
                         final_status = so_status outcome,
                         cleanup_status = so_cleanup outcome,
                         trace_path = so_tracePath outcome,
                         retained_logs = (so_cleanup outcome = ''retained'')\<rparr>, w2))))"

record raw_snapshot =
  rs_session_id :: "string option"
  rs_include_frame :: "bool option"
  rs_include_dom :: "bool option"
  rs_include_ax :: "bool option"
  rs_include_network :: "bool option"

definition parse_snapshot :: "raw_snapshot \<Rightarrow> error + SnapshotInput" where
  "parse_snapshot raw =
     (case rs_session_id raw of
        None \<Rightarrow> Inl (InvalidToolArguments [''session_id''])
      | Some sid \<Rightarrow>
          (if length sid < 1 then Inl (InvalidToolArguments [''session_id''])
           else Inr \<lparr>sn_session_id = sid, sn_include_frame = rs_include_frame raw,
                     sn_include_dom = rs_include_dom raw, sn_include_ax = rs_include_ax raw,
                     sn_include_network = rs_include_network raw\<rparr>))"

record tool_snapshot_env =
  now_touched :: int
  session_snapshot :: snapshot_env

definition tool_snapshot ::
  "(token_seed \<Rightarrow> string) \<Rightarrow> raw_snapshot \<Rightarrow> tool_snapshot_env \<Rightarrow> world \<Rightarrow> (error + StatePacket) \<times> world" where
  "tool_snapshot sha1_hex raw env w =
     (case parse_snapshot raw of
        Inl e \<Rightarrow> (Inl e, w)
      | Inr input \<Rightarrow>
          (case get w (sn_session_id input) of
             None \<Rightarrow> (Inl (Error (''Unknown session_id: '' @ sn_session_id input)), w)
           | Some session \<Rightarrow>
               (let w1 = touch (sn_session_id input) (now_touched env) w;
                    (result, session', sh') =
                      snapshot sha1_hex input (session_snapshot env) session (shared_state w1)
                in (result, w1\<lparr>objects := (objects w1)(sn_session_id input \<mapsto> session'),
                               shared_state := sh'\<rparr>))))"

section \<open>Example values\<close>

text \<open>
  Concrete inputs at which the theorems below are instantiated: a digest that is not
  SHA-1 but, like it, never returns the empty string; a page; an active session of the
  deterministic policy with its coordinator and builder; what the environment does
  during one step.
\<close>

definition ex_digest :: "token_seed \<Rightarrow> string" where
  "ex_digest seed =
     ''sha1:'' @ seed_url seed @ ''|'' @ seed_title seed @ ''|'' @ show_nat (networkCount seed)
       @ ''|'' @ show_nat (frameCount seed)"

definition ex_obs :: page_obs where
  "ex_obs = \<lparr>page_url = ''https://example.com/'', page_title = Some ''Example Domain'',
             page_dom = Inl (Error ''Execution context was destroyed''),
             page_ax = AxSnapshotRejects, obs_now = 1000\<rparr>"

definition ex_options :: ObserveOptions where
  "ex_options = \<lparr>includeDom = False, includeAx = True, includeNetwork = True, includeFrame = True,
                 maxFrames = Some 4\<rparr>"

definition ex_coordinator :: CaptureCoordinator where
  "ex_coordinator =
     new_CaptureCoordinator
       \<lparr>fo_enabled = True, fo_traceId = ''trace_1_s1'', fo_sessionId = ''s1'', frameQuality = 65,
        fo_maxWidth = None, fo_maxHeight = None, fo_maxFrames = 4, fo_adaptive = True,
        fo_traceDir = ''traces/trace_1_s1''\<rparr>"

definition ex_calls :: "(ObserveOptions \<times> page_obs \<times> NetworkEvent list \<times> CaptureCoordinator) list" where
  "ex_calls =
     [(ex_options, ex_obs, [], ex_coordinator),
      (ex_options, ex_obs\<lparr>obs_now := 1500\<rparr>, [], ex_coordinator),
      (ex_options, ex_obs\<lparr>obs_now := 2000\<rparr>, [], ex_coordinator),
      (ex_options, ex_obs\<lparr>page_url := ''https://example.com/next'', obs_now := 2500\<rparr>, [], ex_coordinator)]"

definition ex_params :: BrowserSessionParams where
  "ex_params =
     \<lparr>bp_input = \<lparr>target_url = ''https://example.com/'', c_viewport = None, c_headless = None,
                  storage_state = None, capture_profile = Some adaptive,
                  c_policy = Some deterministic, max_steps = Some 50, max_duration_ms = None\<rparr>,
      bp_policy = DeterministicPolicy, maxSteps = 50, traceId = ''trace_1_s1'',
      captureProfile = adaptive, bp_headless = True, bp_viewport = None, storageState = None,
      bp_maxFrames = 4, maxDurationMs = None\<rparr>"

definition ex_session :: BrowserSession where
  "ex_session =
     \<lparr>bs_id = ''s1'', params = ex_params,
      has_browser = True, has_context = True, has_page = True,
      browser_open = True, context_open = True, page_open = True,
      captureCoordinator =
        Some (ex_coordinator\<lparr>has_cdpSession := True, cc_active := True, has_frameEventHandler := True\<rparr>),
      stateBuilder = Some new_StateBuilder, has_actionExecutor = True,
      networkEvents = [], requestId = 0, active = True, stepIndex = 3, createdAt = 900,
      lastFrame = None\<rparr>"

definition ex_shared :: shared where
  "ex_shared =
     \<lparr>files = \<lparr>cwd = ''/srv/app'', trace_files = Map.empty, index_files = Map.empty\<rparr>,
      metrics = \<lparr>stepLatencies = [], droppedFrames = 0, actionFailures = 0, steps = 0\<rparr>\<rparr>"

definition ex_record_env :: record_env where
  "ex_record_env =
     \<lparr>read_rejects = False, now_load = 1300, now_at = 1300, append_rejects = None, now_index = 1301, persist_rejects = None\<rparr>"

definition ex_exec_env :: exec_env where
  "ex_exec_env =
     \<lparr>locator_count = 0, driver_rejects = Some (ThrownError ''Target closed''), timer_fires = False,
      now_exec_start = 1010, now_event_id = 1100, now_event_time = 1100, now_exec_end = 1101,
      url_at_event = ''https://example.com/'', url_at_result = ''https://example.com/''\<rparr>"

definition ex_step_env :: step_env where
  "ex_step_env =
     \<lparr>now_budget = 1000, now_stepStart = 1000, pre_obs = ex_obs,
      now_denied_elapsed = 1005, now_denied_latency = 1006,
      arrivals_during_action = [], exec = ex_exec_env, now_drift = 1102,
      arrivals_before_post = [], post_obs = ex_obs\<lparr>obs_now := 1200\<rparr>,
      now_latency = 1250, now_touch = 1251, step_record = ex_record_env\<rparr>"

definition ex_input :: ActionInput where
  "ex_input =
     \<lparr>in_session_id = ''s1'', in_action = Click, in_selector = None, in_text = None, in_key = None,
      in_url = None, in_x = Some 20, in_y = Some 15, in_delta_x = None, in_delta_y = None,
      in_timeout_ms = None,
      in_capture = Some \<lparr>include_frame = None, include_dom = None, include_ax = None,
                         include_network = Some True, max_frames = Some 2\<rparr>,
      in_max_actions_per_step = None, in_wait_for = None\<rparr>"

definition ex_denied_input :: ActionInput where
  "ex_denied_input =
     ex_input\<lparr>in_action := Navigate, in_url := Some ''JavaScript:alert(1)'', in_x := None, in_y := None\<rparr>"

definition ex_packet :: StatePacket where
  "ex_packet =
     \<lparr>state_token = ''sha1:https://example.com/|Example Domain|0|0'', sp_timestamp = 1000,
      sp_session_id = ''s1'', sp_url = ''https://example.com/'', sp_title = ''Example Domain'',
      sp_dom = None, accessibility = AxUndefined, network_events = [], frame_refs = [],
      region_detections = [], change_tokens = [''INIT''],
      queue_health = \<lparr>frame_queue_depth = 0, frame_queue_max = 4, dropped_frames = 0,
                       pending_frames = 0\<rparr>\<rparr>"

definition ex_appends :: "(record_env \<times> replay_type \<times> replay_payload) list" where
  "ex_appends =
     [(ex_record_env, ev_create, CreatePayload ''s1'' ex_packet (buildCapabilities ex_session)),
      (ex_record_env\<lparr>now_at := 1400\<rparr>, ev_snapshot, SnapshotPayload ex_packet),
      (ex_record_env\<lparr>now_at := 1500, persist_rejects := Some (Error ''EACCES'')\<rparr>, ev_snapshot,
         SnapshotPayload (ex_packet\<lparr>sp_timestamp := 1499\<rparr>)),
      (ex_record_env\<lparr>now_at := 1600\<rparr>, ev_snapshot, SnapshotPayload (ex_packet\<lparr>sp_timestamp := 1599\<rparr>)),
      (ex_record_env\<lparr>now_at := 1700\<rparr>, ev_stop, StopPayload ''s1'' True)]"

text \<open>The first three appends again, with the read of the third one rejected.\<close>

definition ex_reread :: "(record_env \<times> replay_type \<times> replay_payload) list" where
  "ex_reread =
     [(ex_record_env, ev_create, CreatePayload ''s1'' ex_packet (buildCapabilities ex_session)),
      (ex_record_env\<lparr>now_at := 1400\<rparr>, ev_snapshot, SnapshotPayload ex_packet),
      (ex_record_env\<lparr>now_at := 1500, read_rejects := True\<rparr>, ev_snapshot,
         SnapshotPayload (ex_packet\<lparr>sp_timestamp := 1499\<rparr>))]"

definition ex_teardown :: teardown_env where
  "ex_teardown =
     \<lparr>cdp_stop = \<lparr>stopScreencast_rejects = False, detach_rejects = False\<rparr>,
      page_close_rejects = False, context_close_rejects = False, browser_close_rejects = False,
      stop_record = ex_record_env\<lparr>now_at := 2000\<rparr>,
      stop_cleanup = \<lparr>rm_trace_rejects = False, rm_index_rejects = False\<rparr>\<rparr>"

definition ex_teardown_failing :: teardown_env where
  "ex_teardown_failing =
     \<lparr>cdp_stop = \<lparr>stopScreencast_rejects = True, detach_rejects = True\<rparr>,
      page_close_rejects = True, context_close_rejects = True, browser_close_rejects = True,
      stop_record = ex_record_env\<lparr>append_rejects := Some (Error ''ENOSPC'')\<rparr>,
      stop_cleanup = \<lparr>rm_trace_rejects = True, rm_index_rejects = True\<rparr>\<rparr>"

definition ex_closed_page :: page_obs where
  "ex_closed_page =
     \<lparr>page_url = ''https://example.com/'', page_title = None,
      page_dom = Inl (Error ''Target page, context or browser has been closed''),
      page_ax = AxSnapshotRejects, obs_now = 2100\<rparr>"

definition ex_snapshot_input :: SnapshotInput where
  "ex_snapshot_input =
     \<lparr>sn_session_id = ''s1'', sn_include_frame = None, sn_include_dom = None,
      sn_include_ax = Some True, sn_include_network = Some True\<rparr>"

definition ex_snapshot_env :: snapshot_env where
  "ex_snapshot_env = \<lparr>snap_obs = ex_closed_page, snap_record = ex_record_env\<lparr>now_at := 2101\<rparr>\<rparr>"

definition ex_session2 :: BrowserSession where
  "ex_session2 = ex_session\<lparr>bs_id := ''s2'', params := ex_params\<lparr>traceId := ''trace_2_s2''\<rparr>\<rparr>"

definition ex_session3 :: BrowserSession where
  "ex_session3 = ex_session\<lparr>bs_id := ''s3'', params := ex_params\<lparr>traceId := ''trace_3_s3''\<rparr>\<rparr>"

definition ex_world :: world where
  "ex_world =
     \<lparr>objects = [''s1'' \<mapsto> ex_session, ''s2'' \<mapsto> ex_session2, ''s3'' \<mapsto> ex_session3],
      sessions = [''s1'', ''s2'', ''s3''],
      created = [(''s1'', 900), (''s2'', 5000), (''s3'', 100)],
      maxSessions = 3, defaultHeadless = True, allowedDomains = [], deniedDomains = [],
      maxAgeMs = 1000, policyMode = model_owns_action, shared_state = ex_shared\<rparr>"

definition ex_teardowns :: "string \<Rightarrow> teardown_env" where
  "ex_teardowns k = (if k = ''s1'' then ex_teardown_failing else ex_teardown)"

definition ex_parse_url :: "string \<Rightarrow> (string \<times> string) option" where
  "ex_parse_url u =
     (if u = ''ftp://example.com'' then Some (''ftp:'', ''example.com'')
      else if u = ''https://example.com/'' then Some (''https:'', ''example.com'')
      else None)"

definition ex_start_env :: start_env where
  "ex_start_env =
     \<lparr>launch_rejects = None, newContext_rejects = None, newPage_rejects = None,
      cdp_start = \<lparr>newCDPSession_rejects = None, page_enable_rejects = None,
                   startScreencast_rejects = None\<rparr>,
      route_rejects = None, arrivals_during_goto = [], goto_rejects = None,
      now_started = 6000, initial_obs = ex_obs\<lparr>obs_now := 6001\<rparr>,
      create_record = ex_record_env\<lparr>now_at := 6002\<rparr>\<rparr>"

definition ex_create_env :: create_env where
  "ex_create_env =
     \<lparr>evict_teardown = ex_teardown, parse_url = ex_parse_url,
      randomUUID = ''6f1c2a52-0c11-4b6e-9d1e-3a5f0c9a7b21'', now_traceId = 5990,
      now_constructed = 5991, session_start = ex_start_env, now_registered = 6003\<rparr>"

definition ex_bad_create :: SessionCreateInput where
  "ex_bad_create =
     \<lparr>target_url = ''ftp://example.com'', c_viewport = None, c_headless = None,
      storage_state = None, capture_profile = None, c_policy = None, max_steps = None,
      max_duration_ms = None\<rparr>"

definition ex_raw_stop :: raw_stop where
  "ex_raw_stop = \<lparr>raw_session_id = Some ''s1'', raw_preserve_artifacts = None\<rparr>"

definition ex_tool_stop_env :: tool_stop_env where
  "ex_tool_stop_env = \<lparr>session_teardown = ex_teardown, manager_teardown = ex_teardown\<rparr>"

section \<open>Proofs\<close>

subsection \<open>The frame ring\<close>

lemma evict_loop_fits:
  "int (length (items r)) \<le> maxDepth r \<Longrightarrow> evict_loop r = Some r"
  by (subst evict_loop.simps) simp

lemma evict_loop_one_over:
  assumes "int (length (items r)) = maxDepth r + 1" and "0 \<le> maxDepth r"
  shows "evict_loop r = Some (r\<lparr>items := tl (items r), dropped := dropped r + 1\<rparr>)"
proof -
  let ?r' = "r\<lparr>items := tl (items r), dropped := dropped r + 1\<rparr>"
  have "int (length (items ?r')) \<le> maxDepth ?r'"
    using assms by (cases "items r") auto
  then have "evict_loop ?r' = Some ?r'" by (rule evict_loop_fits)
  moreover have "evict_loop r = evict_loop ?r'"
    using assms by (subst evict_loop.simps) simp
  ultimately show ?thesis by simp
qed

lemma push_below:
  assumes "int (length (items r)) < maxDepth r"
  shows "push r v = Some (r\<lparr>items := items r @ [v]\<rparr>)"
  unfolding push_def using assms by (intro evict_loop_fits) simp

lemma push_full:
  assumes "int (length (items r)) = maxDepth r"
  shows "push r v = Some (r\<lparr>items := tl (items r @ [v]), dropped := dropped r + 1\<rparr>)"
proof -
  let ?r0 = "r\<lparr>items := items r @ [v]\<rparr>"
  have "int (length (items ?r0)) = maxDepth ?r0 + 1" and "0 \<le> maxDepth ?r0"
    using assms by simp_all
  from evict_loop_one_over [OF this] show ?thesis unfolding push_def by simp
qed

lemma push_all_result:
  assumes "int (length (items r)) \<le> maxDepth r"
  shows "push_all r vs =
     Some (r\<lparr>items := drop (nat (int (length (items r @ vs)) - maxDepth r)) (items r @ vs),
              dropped := dropped r + nat (int (length (items r @ vs)) - maxDepth r)\<rparr>)"
  using assms
proof (induction vs arbitrary: r)
  case Nil
  then show ?case by simp
next
  case (Cons v vs)
  show ?case
  proof (cases "int (length (items r)) < maxDepth r")
    case True
    let ?r1 = "r\<lparr>items := items r @ [v]\<rparr>"
    have fits: "int (length (items ?r1)) \<le> maxDepth ?r1" using True by simp
    have "push_all r (v # vs) = push_all ?r1 vs" using push_below [OF True] by simp
    then show ?thesis using Cons.IH [OF fits] by simp
  next
    case False
    with Cons.prems have full: "int (length (items r)) = maxDepth r" by simp
    let ?r1 = "r\<lparr>items := tl (items r @ [v]), dropped := dropped r + 1\<rparr>"
    have fits: "int (length (items ?r1)) \<le> maxDepth ?r1" using full by simp
    have a: "nat (int (length (items ?r1 @ vs)) - maxDepth ?r1) = length vs"
      using full by simp
    have b: "nat (int (length (items r @ v # vs)) - maxDepth r) = Suc (length vs)"
      using full by simp
    have c: "drop (length vs) (tl (items r @ [v]) @ vs) = drop (Suc (length vs)) (items r @ v # vs)"
      by (cases "items r") (simp_all add: drop_Suc)
    have "push_all r (v # vs) = push_all ?r1 vs" using push_full [OF full] by simp
    also have "\<dots> = Some (?r1\<lparr>items := drop (length vs) (items ?r1 @ vs),
                              dropped := dropped ?r1 + length vs\<rparr>)"
      using Cons.IH [OF fits] unfolding a .
    finally show ?thesis unfolding b using c by simp
  qed
qed

text \<open>
  C2. A fresh ring of capacity \<open>C \<ge> 1\<close> accepts every sequence \<open>vs\<close> of pushes (each push
  returns); afterwards its depth is \<open>min (length vs) C\<close>, which is at most \<open>C\<close>, its
  \<open>dropped\<close> counter is \<open>max 0 (length vs - C)\<close>, it holds the last \<open>C\<close> values pushed in
  push order, and its newest entry is the last value pushed. As \<open>vs\<close> is arbitrary, the
  bound on the depth holds after every prefix of the pushes.
\<close>

theorem ring_push_with_eviction:
  assumes "1 \<le> C"
  shows "\<exists>r. push_all (new_FixedRingBuffer C) vs = Some r
        \<and> int (depth r) = min (int (length vs)) C
        \<and> int (depth r) \<le> C
        \<and> int (dropped r) = max 0 (int (length vs) - C)
        \<and> maxDepth r = C
        \<and> getAll r = drop (length vs - nat C) vs
        \<and> (vs \<noteq> [] \<longrightarrow> last (getAll r) = last vs)"
proof -
  let ?fresh = "new_FixedRingBuffer C :: 'a FixedRingBuffer"
  let ?k = "nat (int (length vs) - C)"
  let ?res = "?fresh\<lparr>items := drop ?k vs, dropped := ?k\<rparr>"
  have "int (length (items ?fresh)) \<le> maxDepth ?fresh"
    using assms by (simp add: new_FixedRingBuffer_def)
  then have "push_all ?fresh vs =
     Some (?fresh\<lparr>items := drop (nat (int (length (items ?fresh @ vs)) - maxDepth ?fresh)) (items ?fresh @ vs),
              dropped := dropped ?fresh + nat (int (length (items ?fresh @ vs)) - maxDepth ?fresh)\<rparr>)"
    by (rule push_all_result)
  then have run: "push_all ?fresh vs = Some ?res" by (simp add: new_FixedRingBuffer_def)
  have k: "?k = length vs - nat C" using assms by simp
  have d: "int (depth ?res) = min (int (length vs)) C"
    using assms by (simp add: depth_def)
  have l: "vs \<noteq> [] \<longrightarrow> last (getAll ?res) = last vs"
    using assms by (simp add: getAll_def k)
  have dr: "int (dropped ?res) = max 0 (int (length vs) - C)" by simp
  have g: "getAll ?res = drop (length vs - nat C) vs" by (simp add: getAll_def k)
  have m: "maxDepth ?res = C" by (simp add: new_FixedRingBuffer_def)
  from d assms have le: "int (depth ?res) \<le> C" by linarith
  from run d le dr m g l show ?thesis by blast
qed

theorem ring_push_with_eviction_witness:
  "(1::int) \<le> 2 \<and>
   (\<exists>r. push_all (new_FixedRingBuffer 2) [10, 20, 30, 40, 50 :: nat] = Some r
      \<and> depth r = 2 \<and> dropped r = 3 \<and> getAll r = [40, 50] \<and> last (getAll r) = 50)"
  using ring_push_with_eviction [of 2 "[10, 20, 30, 40, 50 :: nat]"] by auto

subsection \<open>Capture settings\<close>

lemma dispatch_ignores_capture:
  "dispatch a (input\<lparr>in_capture := c\<rparr>) e = dispatch a input e"
  by (cases a) (simp_all add: withElementOrCoordinate_def)

lemma recordActionEvent_ignores_capture:
  "recordActionEvent e (input\<lparr>in_capture := c\<rparr>) ring r b d = recordActionEvent e input ring r b d"
  by (simp add: recordActionEvent_def)

lemma execute_ignores_capture:
  "execute (input\<lparr>in_capture := c\<rparr>) e ring = execute input e ring"
  by (simp add: execute_def Let_def dispatch_ignores_capture recordActionEvent_ignores_capture
        split: sum.split)

lemma shouldAllowAction_ignores_capture:
  "shouldAllowAction P st (input\<lparr>in_capture := c\<rparr>) = shouldAllowAction P st input"
  by (cases P) simp_all

lemma run_action_ignores_capture:
  "run_action (input\<lparr>in_capture := c\<rparr>) env s sh = run_action input env s sh"
  by (simp add: run_action_def execute_ignores_capture)

lemma step_ignores_capture:
  assumes "normalizeCaptureSettings (params s) c = normalizeCaptureSettings (params s) (in_capture input)"
  shows "step H (input\<lparr>in_capture := c\<rparr>) env s sh = step H input env s sh"
  unfolding step_def using assms
  by (simp add: Let_def run_action_ignores_capture shouldAllowAction_ignores_capture
        policy_denied_result_def split: sum.split prod.split)

text \<open>
  C6. \<open>normalizeCaptureSettings\<close>, which \<open>step\<close> applies to \<open>input.capture\<close>: with no
  capture block the profile defaults are used (DOM and AX iff the profile is not
  \<open>frames_only\<close>, frames iff it is not \<open>dom_only\<close>, network always); with a block in
  which no include flag is set (each flag absent or false, as the code's \<open>||\<close> chain reads
  it) the same defaults are used and the caller's \<open>max_frames\<close> is kept; otherwise each
  include flag is exactly the caller's (an absent flag is false) and \<open>max_frames\<close> is the
  caller's. A step depends on its capture block only through these normalized settings.
\<close>

theorem normalizeCaptureSettings_cases:
  "normalizeCaptureSettings p None =
     \<lparr>includeDom = (captureProfile p \<noteq> frames_only), includeAx = (captureProfile p \<noteq> frames_only),
      includeNetwork = True, includeFrame = (captureProfile p \<noteq> dom_only),
      maxFrames = Some (bp_maxFrames p)\<rparr>
   \<and> (include_dom i \<noteq> Some True \<and> include_ax i \<noteq> Some True
        \<and> include_frame i \<noteq> Some True \<and> include_network i \<noteq> Some True \<longrightarrow>
      normalizeCaptureSettings p (Some i) =
        \<lparr>includeDom = (captureProfile p \<noteq> frames_only), includeAx = (captureProfile p \<noteq> frames_only),
         includeNetwork = True, includeFrame = (captureProfile p \<noteq> dom_only),
         maxFrames = max_frames i\<rparr>)
   \<and> (include_dom i = Some True \<or> include_ax i = Some True
        \<or> include_frame i = Some True \<or> include_network i = Some True \<longrightarrow>
      normalizeCaptureSettings p (Some i) =
        \<lparr>includeDom = (include_dom i = Some True), includeAx = (include_ax i = Some True),
         includeNetwork = (include_network i = Some True), includeFrame = (include_frame i = Some True),
         maxFrames = max_frames i\<rparr>)
   \<and> (normalizeCaptureSettings (params s) c = normalizeCaptureSettings (params s) (in_capture input) \<longrightarrow>
      step H (input\<lparr>in_capture := c\<rparr>) env s sh = step H input env s sh)"
  using step_ignores_capture by (auto simp add: normalizeCaptureSettings_def)

theorem normalizeCaptureSettings_cases_witness:
  "normalizeCaptureSettings (ex_params\<lparr>captureProfile := frames_only\<rparr>)
      (Some \<lparr>include_frame = None, include_dom = Some False, include_ax = None,
             include_network = None, max_frames = Some 9\<rparr>)
     = \<lparr>includeDom = False, includeAx = False, includeNetwork = True, includeFrame = True,
        maxFrames = Some 9\<rparr>
   \<and> normalizeCaptureSettings ex_params
      (Some \<lparr>include_frame = None, include_dom = Some True, include_ax = Some False,
             include_network = None, max_frames = None\<rparr>)
     = \<lparr>includeDom = True, includeAx = False, includeNetwork = False, includeFrame = False,
        maxFrames = None\<rparr>
   \<and> step ex_digest
        (ex_input\<lparr>in_capture := Some \<lparr>include_frame = Some False, include_dom = Some False,
                                        include_ax = Some False, include_network = Some True,
                                        max_frames = Some 2\<rparr>\<rparr>) ex_step_env ex_session ex_shared
     = step ex_digest ex_input ex_step_env ex_session ex_shared"
  using
    normalizeCaptureSettings_cases
      [of "ex_params\<lparr>captureProfile := frames_only\<rparr>"
          "\<lparr>include_frame = None, include_dom = Some False, include_ax = None,
            include_network = None, max_frames = Some 9\<rparr>"
          ex_session
          "Some \<lparr>include_frame = Some False, include_dom = Some False,
                 include_ax = Some False, include_network = Some True, max_frames = Some 2\<rparr>"
          ex_input ex_digest ex_step_env ex_shared]
    normalizeCaptureSettings_cases
      [of ex_params
          "\<lparr>include_frame = None, include_dom = Some True, include_ax = Some False,
            include_network = None, max_frames = None\<rparr>"
          ex_session None ex_input ex_digest ex_step_env ex_shared]
  by (simp add: ex_params_def ex_input_def ex_session_def normalizeCaptureSettings_def)

subsection \<open>Change tokens\<close>

lemma buildStateSnapshot_tokens:
  assumes "buildStateSnapshot H options obs ring coordinator sb = Inr (packet, sb')"
  shows "lastStateToken sb' = state_token packet"
    and "change_tokens packet = computeChangeTokens (lastStateToken sb) (state_token packet)"
    and "\<exists>seed. state_token packet = H seed"
  using assms
  by (auto simp add: buildStateSnapshot_def Let_def split: sum.splits if_splits)

lemma build_packets_tokens:
  assumes "\<forall>seed. H seed \<noteq> []"
  shows "(build_packets H sb calls \<noteq> [] \<longrightarrow>
            change_tokens (hd (build_packets H sb calls)) =
              computeChangeTokens (lastStateToken sb) (state_token (hd (build_packets H sb calls))))
       \<and> (\<forall>k. Suc k < length (build_packets H sb calls) \<longrightarrow>
            change_tokens (build_packets H sb calls ! Suc k) =
              (if state_token (build_packets H sb calls ! Suc k) = state_token (build_packets H sb calls ! k)
               then [''NO_CHANGE''] else [''STATE_CHANGED'']))"
proof (induction calls arbitrary: sb)
  case Nil
  then show ?case by simp
next
  case (Cons call calls)
  obtain options obs ring coordinator where call: "call = (options, obs, ring, coordinator)"
    by (cases call) auto
  show ?case
  proof (cases "buildStateSnapshot H options obs ring coordinator sb")
    case (Inl e)
    then have "build_packets H sb (call # calls) = build_packets H sb calls"
      by (simp add: call)
    then show ?thesis using Cons.IH [of sb] by simp
  next
    case (Inr r)
    obtain packet sb' where r: "r = (packet, sb')" by (cases r) auto
    have run: "build_packets H sb (call # calls) = packet # build_packets H sb' calls"
      using Inr by (simp add: call r)
    have last: "lastStateToken sb' = state_token packet"
      and first: "change_tokens packet = computeChangeTokens (lastStateToken sb) (state_token packet)"
      and digest: "\<exists>seed. state_token packet = H seed"
      using buildStateSnapshot_tokens [OF Inr [unfolded r]] by auto
    from digest assms have nonempty: "state_token packet \<noteq> []" by metis
    have later: "change_tokens ((packet # build_packets H sb' calls) ! Suc k) =
              (if state_token ((packet # build_packets H sb' calls) ! Suc k)
                    = state_token ((packet # build_packets H sb' calls) ! k)
               then [''NO_CHANGE''] else [''STATE_CHANGED''])"
      if k: "Suc k < length (packet # build_packets H sb' calls)" for k
    proof (cases k)
      case 0
      with k have ne: "build_packets H sb' calls \<noteq> []" by auto
      with Cons.IH [of sb'] have
        "change_tokens (hd (build_packets H sb' calls)) =
           computeChangeTokens (state_token packet) (state_token (hd (build_packets H sb' calls)))"
        by (simp add: last)
      then show ?thesis using 0 ne nonempty
        by (auto simp add: computeChangeTokens_def hd_conv_nth)
    next
      case (Suc j)
      with k have "Suc j < length (build_packets H sb' calls)" by simp
      with Cons.IH [of sb'] show ?thesis using Suc by simp
    qed
    show ?thesis unfolding run using first later by simp
  qed
qed

text \<open>
  C7. Let one builder instance, fresh, build packets over any sequence of calls, with a
  digest that never returns the empty string (a SHA-1 hex digest has 40 characters). The
  first packet built carries \<open>[INIT]\<close>; every later packet carries \<open>[NO_CHANGE]\<close> if its
  state token equals the token of the packet built before it, and \<open>[STATE_CHANGED]\<close>
  otherwise. The witness runs the scenario: three builds on an unchanging page give
  \<open>[INIT]\<close>, \<open>[NO_CHANGE]\<close>, \<open>[NO_CHANGE]\<close>, and the build after the url has changed gives
  \<open>[STATE_CHANGED]\<close>, the digest telling the two urls apart.
\<close>

theorem change_token_sequence:
  assumes "\<forall>seed. sha1_hex seed \<noteq> []"
  shows "(build_packets sha1_hex new_StateBuilder calls \<noteq> [] \<longrightarrow>
            change_tokens (hd (build_packets sha1_hex new_StateBuilder calls)) = [''INIT''])
       \<and> (\<forall>k. Suc k < length (build_packets sha1_hex new_StateBuilder calls) \<longrightarrow>
            change_tokens (build_packets sha1_hex new_StateBuilder calls ! Suc k) =
              (if state_token (build_packets sha1_hex new_StateBuilder calls ! Suc k)
                    = state_token (build_packets sha1_hex new_StateBuilder calls ! k)
               then [''NO_CHANGE''] else [''STATE_CHANGED'']))"
  using build_packets_tokens [OF assms, of new_StateBuilder calls]
  by (simp add: new_StateBuilder_def computeChangeTokens_def)

lemma ex_calls_tokens:
  "map state_token (build_packets ex_digest new_StateBuilder ex_calls) =
     [''sha1:https://example.com/|Example Domain|0|0'',
      ''sha1:https://example.com/|Example Domain|0|0'',
      ''sha1:https://example.com/|Example Domain|0|0'',
      ''sha1:https://example.com/next|Example Domain|0|0'']"
  by (simp add: ex_calls_def buildStateSnapshot_def ex_digest_def ex_options_def ex_obs_def
        ex_coordinator_def new_StateBuilder_def computeChangeTokens_def slice_last_def
        getQueue_def getAll_def new_CaptureCoordinator_def new_FixedRingBuffer_def
        normalizeFrameRefs_def Let_def show_nat.simps digit_char_def)

theorem change_token_sequence_witness:
  "(\<forall>seed. ex_digest seed \<noteq> [])
   \<and> map change_tokens (build_packets ex_digest new_StateBuilder ex_calls) =
       [[''INIT''], [''NO_CHANGE''], [''NO_CHANGE''], [''STATE_CHANGED'']]"
proof -
  let ?ps = "build_packets ex_digest new_StateBuilder ex_calls"
  have ne: "\<forall>seed. ex_digest seed \<noteq> []" by (simp add: ex_digest_def)
  have len: "length ?ps = 4" using arg_cong [OF ex_calls_tokens, of length] by simp
  then obtain a b c d where ps: "?ps = [a, b, c, d]"
    by (auto simp add: length_Suc_conv numeral_eq_Suc)
  note seq = change_token_sequence [OF ne, of ex_calls]
  from seq have "change_tokens a = [''INIT'']" by (simp add: ps)
  moreover from seq [THEN conjunct2, rule_format, of 0] ex_calls_tokens
  have "change_tokens b = [''NO_CHANGE'']" by (simp add: ps)
  moreover from seq [THEN conjunct2, rule_format, of 1] ex_calls_tokens
  have "change_tokens c = [''NO_CHANGE'']" by (simp add: ps)
  moreover from seq [THEN conjunct2, rule_format, of 2] ex_calls_tokens
  have "change_tokens d = [''STATE_CHANGED'']" by (simp add: ps)
  ultimately show ?thesis using ne by (simp add: ps)
qed

subsection \<open>The replay log\<close>

lemma parsed_events_snoc: "parsed_events (ls @ [JsonEvent e]) = parsed_events ls @ [IsEvent e]"
  by (simp add: parsed_events_def)

lemma load_events:
  "events (load now rejects tid fs) = (if rejects then [] else parsed_events (trace_lines tid fs))"
  by (simp add: load_def readFile_def trace_lines_def parsed_events_def Let_def split: option.split)

lemma recordReplayEvent_cwd: "cwd (snd (recordReplayEvent env tid type payload fs)) = cwd fs"
  by (simp add: recordReplayEvent_def append_def persistTraceIndex_def Let_def
        split: option.split)

lemma recordReplayEvent_lines:
  "trace_lines tid (snd (recordReplayEvent env tid type payload fs)) =
     (if append_rejects env = None
      then trace_lines tid fs @
             [JsonEvent \<lparr>ev_type = type,
                         ev_index = (if read_rejects env then 0
                                     else int (length (parsed_events (trace_lines tid fs)))) + 1,
                         ev_at = now_at env, ev_payload = payload\<rparr>]
      else trace_lines tid fs)"
  by (auto simp add: recordReplayEvent_def append_def persistTraceIndex_def Let_def load_events
        trace_lines_def split: option.split)

lemma record_all_events:
  "parsed_events (trace_lines tid (record_all tid calls fs)) =
     parsed_events (trace_lines tid fs)
       @ map IsEvent (appended_events (length (parsed_events (trace_lines tid fs))) calls)"
proof (induction calls arbitrary: fs)
  case Nil
  then show ?case by simp
next
  case (Cons call calls)
  obtain env type payload where call: "call = (env, type, payload)" by (cases call) auto
  show ?case
    by (simp add: call Cons.IH recordReplayEvent_lines parsed_events_snoc)
qed

lemma appended_events_nth:
  "reads_succeed calls \<Longrightarrow> k < length (appended_events n calls)
   \<Longrightarrow> ev_index (appended_events n calls ! k) = int n + int k + 1"
proof (induction calls arbitrary: n k)
  case Nil
  then show ?case by simp
next
  case (Cons call calls)
  obtain env type payload where call: "call = (env, type, payload)" by (cases call) auto
  from Cons.prems(1) have reads: "\<not> read_rejects env" "reads_succeed calls"
    by (simp_all add: call reads_succeed_def)
  show ?case
  proof (cases "append_rejects env = None")
    case True
    show ?thesis
    proof (cases k)
      case 0
      then show ?thesis using True reads by (simp add: call)
    next
      case (Suc j)
      with Cons.prems True have "j < length (appended_events (Suc n) calls)" by (simp add: call)
      from Cons.IH [OF reads(2) this] show ?thesis using True Suc by (simp add: call)
    qed
  next
    case False
    with Cons.prems have "k < length (appended_events n calls)" by (simp add: call)
    from Cons.IH [OF reads(2) this] show ?thesis using False by (auto simp add: call)
  qed
qed

lemma appended_events_indices:
  "reads_succeed calls \<Longrightarrow>
   map ev_index (appended_events 0 calls) = map (\<lambda>k. int k + 1) [0 ..< length (appended_events 0 calls)]"
  by (rule nth_equalityI) (simp_all add: appended_events_nth)

lemma filter_events_in_range:
  "filter_events now rejects tid startIndex endIndex fs =
     filter (\<lambda>l. case loaded_index l of None \<Rightarrow> True | Some i \<Rightarrow> in_range startIndex endIndex i)
       (events (load now rejects tid fs))"
  unfolding filter_events_def in_range_def
  by (rule filter_cong) (auto split: option.splits)

lemma load_keeps_other_json:
  "parsed_events [JsonEvent e, JsonOther v, JsonNull, Malformed t] = [IsEvent e, NotEvent v]"
  by (simp add: parsed_events_def)

lemma filter_keeps_entry_without_index:
  assumes "l \<in> set (events (load now rejects tid fs))" and "loaded_index l = None"
  shows "l \<in> set (filter_events now rejects tid startIndex endIndex fs)"
  using assms by (simp add: filter_events_in_range)

text \<open>
  C5. Take a trace whose file does not exist yet and let the session append to it, any
  number of times, whatever the environment does during each append. The entries then
  loaded are the events of the appends that did not reject, in append order, and
  \<open>filter\<close> returns exactly the loaded events whose index \<open>i\<close> satisfies
  \<open>start \<le> i \<le> end\<close>, each bound inclusive and optional, in the order of the file. A
  \<open>filter\<close> whose own read of the file is rejected returns nothing. When no read was
  rejected during the appends, the event at position \<open>k\<close> (from 0) has index \<open>k + 1\<close>:
  the indices are dense and 1-based, and what \<open>filter\<close> returns is in index order. An
  append whose read was rejected has loaded no entry and gives its event the index 1
  again. The witness appends five events and filters with \<open>start = 2\<close>, \<open>end = 4\<close>:
  the three middle events come back.
\<close>

theorem filter_returns_index_range:
  assumes "trace_files fs (buildTracePath (cwd fs) tid) = None"
    and "es = appended_events 0 calls"
    and "fs' = record_all tid calls fs"
  shows "events (load now False tid fs') = map IsEvent es
       \<and> filter_events now False tid startIndex endIndex fs'
           = map IsEvent (filter (\<lambda>e. in_range startIndex endIndex (ev_index e)) es)
       \<and> filter_events now True tid startIndex endIndex fs' = []
       \<and> (reads_succeed calls \<longrightarrow>
             map ev_index es = map (\<lambda>k. int k + 1) [0 ..< length es]
           \<and> map ev_index (filter (\<lambda>e. in_range startIndex endIndex (ev_index e)) es)
               = filter (in_range startIndex endIndex) (map (\<lambda>k. int k + 1) [0 ..< length es])
           \<and> sorted (map ev_index (filter (\<lambda>e. in_range startIndex endIndex (ev_index e)) es)))"
proof -
  have empty: "trace_lines tid fs = []" using assms(1) by (simp add: trace_lines_def)
  have evs: "events (load now False tid fs') = map IsEvent es"
    using record_all_events [of tid calls fs]
    by (simp add: assms(2,3) load_events empty parsed_events_def)
  have flt: "filter_events now False tid startIndex endIndex fs'
           = map IsEvent (filter (\<lambda>e. in_range startIndex endIndex (ev_index e)) es)"
    by (simp add: filter_events_in_range evs filter_map comp_def)
  have none: "filter_events now True tid startIndex endIndex fs' = []"
    by (simp add: filter_events_in_range load_events)
  have dense: "map ev_index es = map (\<lambda>k. int k + 1) [0 ..< length es]
           \<and> map ev_index (filter (\<lambda>e. in_range startIndex endIndex (ev_index e)) es)
               = filter (in_range startIndex endIndex) (map (\<lambda>k. int k + 1) [0 ..< length es])
           \<and> sorted (map ev_index (filter (\<lambda>e. in_range startIndex endIndex (ev_index e)) es))"
    if reads: "reads_succeed calls"
  proof -
    have idx: "map ev_index es = map (\<lambda>k. int k + 1) [0 ..< length es]"
      using appended_events_indices [OF reads] by (simp add: assms(2))
    have "map ev_index (filter (\<lambda>e. in_range startIndex endIndex (ev_index e)) es)
            = filter (in_range startIndex endIndex) (map ev_index es)"
      by (simp add: filter_map comp_def)
    moreover have "sorted (map ev_index (filter (\<lambda>e. in_range startIndex endIndex (ev_index e)) es))"
    proof (rule sorted_filter)
      show "sorted (map ev_index es)" unfolding idx by (simp add: sorted_iff_nth_mono)
    qed
    ultimately show ?thesis using idx by simp
  qed
  from evs flt none dense show ?thesis by blast
qed

theorem filter_returns_index_range_witness:
  "trace_files (files ex_shared) (buildTracePath (cwd (files ex_shared)) ''trace_1_s1'') = None
   \<and> reads_succeed ex_appends
   \<and> map loaded_index
        (events (load 9999 False ''trace_1_s1'' (record_all ''trace_1_s1'' ex_appends (files ex_shared))))
        = [Some 1, Some 2, Some 3, Some 4, Some 5]
   \<and> filter_events 9999 False ''trace_1_s1'' (Some 2) (Some 4)
        (record_all ''trace_1_s1'' ex_appends (files ex_shared))
      = [IsEvent \<lparr>ev_type = ev_snapshot, ev_index = 2, ev_at = 1400, ev_payload = SnapshotPayload ex_packet\<rparr>,
         IsEvent \<lparr>ev_type = ev_snapshot, ev_index = 3, ev_at = 1500,
                  ev_payload = SnapshotPayload (ex_packet\<lparr>sp_timestamp := 1499\<rparr>)\<rparr>,
         IsEvent \<lparr>ev_type = ev_snapshot, ev_index = 4, ev_at = 1600,
                  ev_payload = SnapshotPayload (ex_packet\<lparr>sp_timestamp := 1599\<rparr>)\<rparr>]
   \<and> sorted (map ev_index (filter (\<lambda>e. in_range (Some 2) (Some 4) (ev_index e))
                               (appended_events 0 ex_appends)))
   \<and> filter_events 9999 True ''trace_1_s1'' (Some 2) (Some 4)
        (record_all ''trace_1_s1'' ex_appends (files ex_shared)) = []"
proof -
  have absent: "trace_files (files ex_shared) (buildTracePath (cwd (files ex_shared)) ''trace_1_s1'') = None"
    by (simp add: ex_shared_def)
  have reads: "reads_succeed ex_appends"
    by (simp add: reads_succeed_def ex_appends_def ex_record_env_def)
  note run = filter_returns_index_range [OF absent refl refl, of 9999 ex_appends "Some 2" "Some 4"]
  from run have loaded: "events (load 9999 False ''trace_1_s1''
                           (record_all ''trace_1_s1'' ex_appends (files ex_shared)))
                         = map IsEvent (appended_events 0 ex_appends)"
    by blast
  from run have kept: "filter_events 9999 False ''trace_1_s1'' (Some 2) (Some 4)
                         (record_all ''trace_1_s1'' ex_appends (files ex_shared))
                       = map IsEvent (filter (\<lambda>e. in_range (Some 2) (Some 4) (ev_index e))
                                        (appended_events 0 ex_appends))"
    by blast
  from run have none: "filter_events 9999 True ''trace_1_s1'' (Some 2) (Some 4)
                         (record_all ''trace_1_s1'' ex_appends (files ex_shared)) = []"
    by blast
  from run reads
  have ordered: "sorted (map ev_index (filter (\<lambda>e. in_range (Some 2) (Some 4) (ev_index e))
                                         (appended_events 0 ex_appends)))"
    by blast
  have "map loaded_index (map IsEvent (appended_events 0 ex_appends))
          = [Some 1, Some 2, Some 3, Some 4, Some 5]"
    by (simp add: ex_appends_def ex_record_env_def)
  moreover have "map IsEvent (filter (\<lambda>e. in_range (Some 2) (Some 4) (ev_index e))
                                (appended_events 0 ex_appends))
      = [IsEvent \<lparr>ev_type = ev_snapshot, ev_index = 2, ev_at = 1400, ev_payload = SnapshotPayload ex_packet\<rparr>,
         IsEvent \<lparr>ev_type = ev_snapshot, ev_index = 3, ev_at = 1500,
                  ev_payload = SnapshotPayload (ex_packet\<lparr>sp_timestamp := 1499\<rparr>)\<rparr>,
         IsEvent \<lparr>ev_type = ev_snapshot, ev_index = 4, ev_at = 1600,
                  ev_payload = SnapshotPayload (ex_packet\<lparr>sp_timestamp := 1599\<rparr>)\<rparr>]"
    by (simp add: ex_appends_def ex_record_env_def in_range_def)
  ultimately show ?thesis using absent reads loaded kept none ordered by simp
qed

text \<open>
  C5, with a rejected read. The session appends three events, and the read of the third
  append is rejected.
  The third append has loaded no entry, so its event gets the index 1 again: the
  indices are not dense, \<open>filter\<close> with both bounds 1 returns two events, and what it
  returns for the bounds 1 and 2 is not in index order. A \<open>filter\<close> whose own read is
  rejected returns nothing, although the file holds events within the bounds.
\<close>

theorem rejected_read_reuses_index:
  "map loaded_index
     (events (load 9999 False ''trace_1_s1'' (record_all ''trace_1_s1'' ex_reread (files ex_shared))))
     = [Some 1, Some 2, Some 1]
   \<and> map loaded_index
       (filter_events 9999 False ''trace_1_s1'' (Some 1) (Some 1)
          (record_all ''trace_1_s1'' ex_reread (files ex_shared)))
     = [Some 1, Some 1]
   \<and> map loaded_index
       (filter_events 9999 False ''trace_1_s1'' (Some 1) (Some 2)
          (record_all ''trace_1_s1'' ex_reread (files ex_shared)))
     = [Some 1, Some 2, Some 1]
   \<and> \<not> sorted (List.map_filter loaded_index
                  (filter_events 9999 False ''trace_1_s1'' (Some 1) (Some 2)
                     (record_all ''trace_1_s1'' ex_reread (files ex_shared))))
   \<and> filter_events 9999 True ''trace_1_s1'' (Some 1) (Some 2)
        (record_all ''trace_1_s1'' ex_reread (files ex_shared)) = []"
  by code_simp

subsection \<open>One step of a session\<close>

lemma session_buildStateSnapshot_frame:
  assumes "session_buildStateSnapshot H capture obs s = Inr (state, s1)"
  shows "s1 = s\<lparr>stateBuilder := stateBuilder s1\<rparr>"
  using assms
  by (auto simp add: session_buildStateSnapshot_def split: option.splits sum.splits)

lemma step_denied:
  assumes live: "active s \<and> has_page s \<and> has_actionExecutor s \<and> stateBuilder s \<noteq> None"
    and steps_left: "stepIndex s < maxSteps (params s)"
    and time_left: "now_budget env - createdAt s
                      \<le> (case maxDurationMs (params s) of None \<Rightarrow> DEFAULT_MAX_DURATION_MS | Some d \<Rightarrow> d)"
    and pre: "session_buildStateSnapshot H (normalizeCaptureSettings (params s) (in_capture input))
                (pre_obs env) s = Inr (beforeState, s1)"
    and denied: "\<not> allowed (shouldAllowAction (bp_policy (params s1)) (Some beforeState) input)"
  shows "step H input env s sh =
           (Inr (policy_denied_result input
                   (shouldAllowAction (bp_policy (params s1)) (Some beforeState) input) beforeState
                   (now_denied_elapsed env - now_stepStart env)
                   (now_denied_latency env - now_stepStart env)), s1, sh)"
  using assms by (simp add: step_def Let_def)

lemma step_dispatched:
  assumes live: "active s \<and> has_page s \<and> has_actionExecutor s \<and> stateBuilder s \<noteq> None"
    and steps_left: "stepIndex s < maxSteps (params s)"
    and time_left: "now_budget env - createdAt s
                      \<le> (case maxDurationMs (params s) of None \<Rightarrow> DEFAULT_MAX_DURATION_MS | Some d \<Rightarrow> d)"
    and pre: "session_buildStateSnapshot H (normalizeCaptureSettings (params s) (in_capture input))
                (pre_obs env) s = Inr (beforeState, s1)"
    and allowed: "allowed (shouldAllowAction (bp_policy (params s1)) (Some beforeState) input)"
    and action: "run_action input env s1 sh = (actionResult, s5, sh1)"
  shows "step H input env s sh =
     (case session_buildStateSnapshot H (normalizeCaptureSettings (params s) (in_capture input))
             (post_obs env) s5 of
        Inl e \<Rightarrow> (Inl e, s5, sh1)
      | Inr (state, s6) \<Rightarrow>
          (case recordReplayEvent (step_record env) (traceId (params s)) ev_step
                  (StepPayload (compose_step_result actionResult state (now_latency env - now_stepStart env)))
                  (files (sh1\<lparr>metrics := recordStepLatency (now_latency env - now_stepStart env) (metrics sh1)\<rparr>)) of
             (Inl e, fs1) \<Rightarrow>
               (Inl e, s6\<lparr>stepIndex := stepIndex s6 + 1, createdAt := now_touch env\<rparr>,
                sh1\<lparr>metrics := recordStepLatency (now_latency env - now_stepStart env) (metrics sh1),
                     files := fs1\<rparr>)
           | (Inr _, fs1) \<Rightarrow>
               (Inr (compose_step_result actionResult state (now_latency env - now_stepStart env)),
                s6\<lparr>stepIndex := stepIndex s6 + 1, createdAt := now_touch env\<rparr>,
                sh1\<lparr>metrics := recordStepLatency (now_latency env - now_stepStart env) (metrics sh1),
                     files := fs1\<rparr>)))"
  using assms by (auto simp add: step_def Let_def split: sum.split prod.split)


lemma step_returns_cases:
  assumes returns: "step H input env s sh = (Inr r, s', sh')"
  obtains
    (denied) beforeState s1 where
      "session_buildStateSnapshot H (normalizeCaptureSettings (params s) (in_capture input))
         (pre_obs env) s = Inr (beforeState, s1)"
      "status (action_result r) = ''policy_denied''"
  | (dispatched) beforeState s1 actionResult s5 sh1 state s6 where
      "session_buildStateSnapshot H (normalizeCaptureSettings (params s) (in_capture input))
         (pre_obs env) s = Inr (beforeState, s1)"
      "run_action input env s1 sh = (actionResult, s5, sh1)"
      "session_buildStateSnapshot H (normalizeCaptureSettings (params s) (in_capture input))
         (post_obs env) s5 = Inr (state, s6)"
      "r = compose_step_result actionResult state (now_latency env - now_stepStart env)"
      "s' = s6\<lparr>stepIndex := stepIndex s6 + 1, createdAt := now_touch env\<rparr>"
proof -
  have live: "active s \<and> has_page s \<and> has_actionExecutor s \<and> stateBuilder s \<noteq> None"
    using returns by (rule_tac ccontr) (auto simp add: step_def)
  have steps_left: "stepIndex s < maxSteps (params s)"
    using returns live by (rule_tac ccontr) (auto simp add: step_def)
  have time_left: "now_budget env - createdAt s
                      \<le> (case maxDurationMs (params s) of None \<Rightarrow> DEFAULT_MAX_DURATION_MS | Some d \<Rightarrow> d)"
    using returns live steps_left by (rule_tac ccontr) (auto simp add: step_def)
  obtain beforeState s1 where
    pre: "session_buildStateSnapshot H (normalizeCaptureSettings (params s) (in_capture input))
            (pre_obs env) s = Inr (beforeState, s1)"
  proof (cases "session_buildStateSnapshot H (normalizeCaptureSettings (params s) (in_capture input))
            (pre_obs env) s")
    case (Inl e)
    with returns live steps_left time_left show ?thesis by (auto simp add: step_def Let_def)
  next
    case (Inr p)
    then show ?thesis using that by (cases p) auto
  qed
  show ?thesis
  proof (cases "allowed (shouldAllowAction (bp_policy (params s1)) (Some beforeState) input)")
    case False
    from step_denied [OF live steps_left time_left pre False, of sh] returns
    have "status (action_result r) = ''policy_denied''"
      by (auto simp add: policy_denied_result_def)
    with pre show ?thesis by (rule denied)
  next
    case True
    obtain actionResult s5 sh1 where action: "run_action input env s1 sh = (actionResult, s5, sh1)"
      by (cases "run_action input env s1 sh") auto
    note run = step_dispatched [OF live steps_left time_left pre True action]
    show ?thesis
    proof (cases "session_buildStateSnapshot H (normalizeCaptureSettings (params s) (in_capture input))
         (post_obs env) s5")
      case (Inl e)
      with run returns show ?thesis by simp
    next
      case (Inr p)
      obtain state s6 where p: "p = (state, s6)" by (cases p) auto
      from run returns Inr p
      have "r = compose_step_result actionResult state (now_latency env - now_stepStart env)"
        and "s' = s6\<lparr>stepIndex := stepIndex s6 + 1, createdAt := now_touch env\<rparr>"
        by (auto split: prod.splits sum.splits)
      with pre action Inr [unfolded p] show ?thesis by (rule dispatched)
    qed
  qed
qed


text \<open>
  C1. Take a step that reaches the policy adapter (the session is active, within its step
  and duration budgets, and the pre-state packet is built) and that the adapter denies.
  The step returns at once: the result has \<open>action_result.status = policy_denied\<close>,
  \<open>error_codes = [POLICY_DENIED]\<close>, \<open>next_recommendation = halt\<close>, and carries the
  pre-state packet, its frame refs and its queue health. The session afterwards differs
  from the session before in nothing but the state builder's last token: the step index,
  the network array, the activity flag and the last-touch time are unchanged. The shared
  state is returned as it was, so no replay event is appended and no metric moves. No
  action is executed: the result does not depend on what the driver would have done.
\<close>

theorem policy_denied_step:
  assumes live: "active s \<and> has_page s \<and> has_actionExecutor s \<and> stateBuilder s \<noteq> None"
    and steps_left: "stepIndex s < maxSteps (params s)"
    and time_left: "now_budget env - createdAt s
                      \<le> (case maxDurationMs (params s) of None \<Rightarrow> DEFAULT_MAX_DURATION_MS | Some d \<Rightarrow> d)"
    and pre: "session_buildStateSnapshot H (normalizeCaptureSettings (params s) (in_capture input))
                (pre_obs env) s = Inr (beforeState, s1)"
    and denied: "\<not> allowed (shouldAllowAction (bp_policy (params s)) (Some beforeState) input)"
  shows "\<exists>r. step H input env s sh = (Inr r, s1, sh)
           \<and> status (action_result r) = ''policy_denied'' \<and> \<not> success (action_result r)
           \<and> error_codes r = [''POLICY_DENIED''] \<and> next_recommendation r = ''halt''
           \<and> sr_state r = beforeState \<and> sr_frame_refs r = frame_refs beforeState
           \<and> sr_queue_health r = queue_health beforeState
           \<and> stepIndex s1 = stepIndex s \<and> networkEvents s1 = networkEvents s
           \<and> active s1 = active s \<and> createdAt s1 = createdAt s
           \<and> s1 = s\<lparr>stateBuilder := stateBuilder s1\<rparr>
           \<and> (\<forall>e. step H input (env\<lparr>exec := e\<rparr>) s sh = step H input env s sh)"
proof -
  note frame = session_buildStateSnapshot_frame [OF pre]
  have p: "params s1 = params s" by (subst frame) simp
  have same: "stepIndex s1 = stepIndex s" "networkEvents s1 = networkEvents s"
       "active s1 = active s" "createdAt s1 = createdAt s"
    by (subst frame, simp)+
  from denied have denied1: "\<not> allowed (shouldAllowAction (bp_policy (params s1)) (Some beforeState) input)"
    by (simp add: p)
  note run = step_denied [OF live steps_left time_left pre denied1, of sh]
  have "step H input (env\<lparr>exec := e\<rparr>) s sh = step H input env s sh" for e
  proof -
    have "step H input (env\<lparr>exec := e\<rparr>) s sh =
           (Inr (policy_denied_result input
                   (shouldAllowAction (bp_policy (params s1)) (Some beforeState) input) beforeState
                   (now_denied_elapsed (env\<lparr>exec := e\<rparr>) - now_stepStart (env\<lparr>exec := e\<rparr>))
                   (now_denied_latency (env\<lparr>exec := e\<rparr>) - now_stepStart (env\<lparr>exec := e\<rparr>))), s1, sh)"
      using live steps_left time_left pre denied1 by (intro step_denied) simp_all
    with run show ?thesis by simp
  qed
  then show ?thesis using run same frame by (auto simp add: policy_denied_result_def)
qed

lemma ex_denied: "\<not> allowed (shouldAllowAction DeterministicPolicy st ex_denied_input)"
  by (simp add: ex_denied_input_def ex_input_def truthy_def unsafe_scheme_def toLowerCase_def
        to_lower_char_def startsWith_def)

lemma ex_pre_state:
  "session_buildStateSnapshot ex_digest
      (normalizeCaptureSettings (params ex_session) (in_capture ex_denied_input))
      (pre_obs ex_step_env) ex_session
   = Inr (ex_packet, ex_session\<lparr>stateBuilder := Some \<lparr>lastStateToken = state_token ex_packet\<rparr>\<rparr>)"
  by (simp add: session_buildStateSnapshot_def buildStateSnapshot_def normalizeCaptureSettings_def
      ex_session_def ex_denied_input_def ex_input_def ex_step_env_def ex_params_def ex_obs_def
      ex_digest_def ex_coordinator_def new_CaptureCoordinator_def new_FixedRingBuffer_def
      new_StateBuilder_def computeChangeTokens_def slice_last_def withSessionId_def
      getQueueDepth_def getQueueMax_def getDroppedFrames_def getPendingFrames_def depth_def
      normalizeFrameRefs_def Let_def show_nat.simps digit_char_def ex_packet_def)

theorem policy_denied_step_witness:
  "\<not> allowed (shouldAllowAction (bp_policy (params ex_session)) (Some ex_packet) ex_denied_input)
   \<and> (\<exists>r. step ex_digest ex_denied_input ex_step_env ex_session ex_shared
            = (Inr r, ex_session\<lparr>stateBuilder := Some \<lparr>lastStateToken = state_token ex_packet\<rparr>\<rparr>, ex_shared)
          \<and> status (action_result r) = ''policy_denied''
          \<and> error_codes r = [''POLICY_DENIED''] \<and> next_recommendation r = ''halt''
          \<and> sr_state r = ex_packet \<and> sr_frame_refs r = frame_refs ex_packet)
   \<and> stepIndex ex_session = 3"
proof -
  have policy: "bp_policy (params ex_session) = DeterministicPolicy"
    by (simp add: ex_session_def ex_params_def)
  have denied: "\<not> allowed (shouldAllowAction (bp_policy (params ex_session)) (Some ex_packet) ex_denied_input)"
    unfolding policy by (rule ex_denied)
  have live: "active ex_session \<and> has_page ex_session \<and> has_actionExecutor ex_session
                \<and> stateBuilder ex_session \<noteq> None"
    by (simp add: ex_session_def)
  have steps_left: "stepIndex ex_session < maxSteps (params ex_session)"
    by (simp add: ex_session_def ex_params_def)
  have time_left: "now_budget ex_step_env - createdAt ex_session
          \<le> (case maxDurationMs (params ex_session) of None \<Rightarrow> DEFAULT_MAX_DURATION_MS | Some d \<Rightarrow> d)"
    by (simp add: ex_session_def ex_params_def ex_step_env_def DEFAULT_MAX_DURATION_MS_def)
  have idx: "stepIndex ex_session = 3" by (simp add: ex_session_def)
  from policy_denied_step [OF live steps_left time_left ex_pre_state denied, of ex_shared]
  show ?thesis using denied idx by blast
qed

lemma trim_to_snoc_nonempty: "trim_to 400 (ring @ [x]) \<noteq> []"
  by (cases ring) (simp_all add: trim_to_def)

lemma recordActionEvent_event:
  "recordActionEvent e input ring (Some x) True None = trim_to 400 (ring @ [action_event e input True None])"
  "recordActionEvent e input ring None False (Some m) = trim_to 400 (ring @ [action_event e input False (Some m)])"
  by (simp_all add: recordActionEvent_def action_event_def trim_to_def Let_def)

lemma execute_pushes:
  assumes "in_max_actions_per_step input = None \<or> in_max_actions_per_step input = Some 1"
  shows "snd (execute input e ring) \<noteq> []"
    and "status (fst (execute input e ring)) = ''completed'' \<or> status (fst (execute input e ring)) = ''failed''"
    and "snd (execute input e ring)
           = trim_to 400 (ring @ [action_event e input (success (fst (execute input e ring)))
                                     (detail (fst (execute input e ring)))])"
  using assms
  by (auto simp add: execute_def Let_def trim_to_snoc_nonempty recordActionEvent_event
        split: sum.splits)

lemma on_network_nonempty: "networkEvents (on_network s a) \<noteq> []"
  by (cases "networkEvents s") (simp_all add: on_network_def Let_def)

lemma arrivals_keep_nonempty:
  "networkEvents s \<noteq> [] \<Longrightarrow> networkEvents (foldl on_network s arrivals) \<noteq> []"
  by (induction arrivals arbitrary: s) (simp_all add: on_network_nonempty)

lemma run_action_ring:
  assumes "in_max_actions_per_step input = None \<or> in_max_actions_per_step input = Some 1"
    and "run_action input env s1 sh = (actionResult, s5, sh1)"
  shows "networkEvents s5 \<noteq> []"
    and "status actionResult = ''completed'' \<or> status actionResult = ''failed''"
proof -
  let ?s2 = "foldl on_network s1 (arrivals_during_action env)"
  let ?res = "execute input (exec env) (networkEvents ?s2)"
  let ?s3 = "?s2\<lparr>networkEvents := snd ?res\<rparr>"
  let ?s4 = "(if in_action input = WaitFor \<or> in_action input = Wait
               then ?s3\<lparr>captureCoordinator :=
                         map_option (signalVisualDrift (now_drift env)) (captureCoordinator ?s3)\<rparr>
               else ?s3)"
  from assms(2) have s5: "s5 = foldl on_network ?s4 (arrivals_before_post env)"
    and ar: "actionResult = fst ?res"
    by (simp_all add: run_action_def Let_def case_prod_beta)
  have "networkEvents ?s4 \<noteq> []" using execute_pushes(1) [OF assms(1)] by simp
  then show "networkEvents s5 \<noteq> []" unfolding s5 by (rule arrivals_keep_nonempty)
  show "status actionResult = ''completed'' \<or> status actionResult = ''failed''"
    unfolding ar using execute_pushes(2) [OF assms(1)] by simp
qed

lemma slice_last_nonempty:
  assumes "ring \<noteq> []"
  shows "slice_last 100 ring \<noteq> []"
proof -
  from assms have "0 < length ring" by simp
  then have "length ring - 100 < length ring" by arith
  then show ?thesis by (simp add: slice_last_def)
qed

lemma buildStateSnapshot_network:
  assumes "buildStateSnapshot H capture obs ring coordinator sb = Inr (state, sb')"
  shows "network_events state = (if includeNetwork capture then slice_last 100 ring else [])"
proof (cases "if includeDom capture then map_sum id Some (buildDomSummary obs) else Inr None")
  case (Inl e)
  with assms show ?thesis by (simp add: buildStateSnapshot_def Let_def)
next
  case (Inr domSummary)
  with assms show ?thesis by (auto simp add: buildStateSnapshot_def Let_def)
qed

lemma session_buildStateSnapshot_network:
  assumes "session_buildStateSnapshot H capture obs s = Inr (state, s1)"
    and "includeNetwork capture" and "networkEvents s \<noteq> []"
  shows "network_events state \<noteq> []"
proof -
  from assms(1) obtain sb coordinator packet sb' where
    "buildStateSnapshot H capture obs (networkEvents s) coordinator sb = Inr (packet, sb')"
    and "state = withSessionId packet (bs_id s)"
    by (auto simp add: session_buildStateSnapshot_def split: option.splits sum.splits)
  then show ?thesis
    using buildStateSnapshot_network [of H capture obs "networkEvents s" coordinator sb packet sb']
      assms(2,3)
    by (simp add: withSessionId_def slice_last_nonempty)
qed

text \<open>
  C9. Take a step that returns a result, that was not denied by the policy, whose
  \<open>max_actions_per_step\<close> is absent or 1 (so the executor dispatches the action) and
  whose normalized capture settings include network. Then the action's status is
  \<open>completed\<close> or \<open>failed\<close>, the post-state's \<open>network_events\<close> is not empty,
  \<open>NO_NETWORK_EVENT\<close> is not among the step's error codes, and the session's network array
  is not empty afterwards. Whatever the driver does, the executor pushes its synthetic
  event (\<open>action\<close> with status 200 on success, \<open>action_failed\<close> with status 0 on
  failure) and trims the array to 400.
\<close>

theorem dispatched_step_has_network_event:
  assumes returns: "step H input env s sh = (Inr r, s', sh')"
    and not_denied: "status (action_result r) \<noteq> ''policy_denied''"
    and one_action: "in_max_actions_per_step input = None \<or> in_max_actions_per_step input = Some 1"
    and network: "includeNetwork (normalizeCaptureSettings (params s) (in_capture input))"
  shows "network_events (sr_state r) \<noteq> []
       \<and> ''NO_NETWORK_EVENT'' \<notin> set (error_codes r)
       \<and> networkEvents s' \<noteq> []
       \<and> (status (action_result r) = ''completed'' \<or> status (action_result r) = ''failed'')
       \<and> (\<forall>e ring. snd (execute input e ring)
                = trim_to 400 (ring @ [action_event e input (success (fst (execute input e ring)))
                                          (detail (fst (execute input e ring)))]))"
  using returns
proof (cases rule: step_returns_cases)
  case (denied beforeState s1)
  with not_denied show ?thesis by simp
next
  case (dispatched beforeState s1 actionResult s5 sh1 state s6)
  note ring = run_action_ring [OF one_action dispatched(2)]
  have net: "network_events state \<noteq> []"
    using session_buildStateSnapshot_network [OF dispatched(3) network ring(1)] .
  have "networkEvents s6 = networkEvents s5"
    by (subst session_buildStateSnapshot_frame [OF dispatched(3)]) simp
  with ring(1) have "networkEvents s' \<noteq> []" by (simp add: dispatched(5))
  moreover have "network_events (sr_state r) \<noteq> []" "''NO_NETWORK_EVENT'' \<notin> set (error_codes r)"
    "action_result r = actionResult"
    using net by (simp_all add: dispatched(4) compose_step_result_def Let_def)
  ultimately show ?thesis using ring(2) execute_pushes(3) [OF one_action] by simp
qed

lemma ex_step_runs:
  "(case step ex_digest ex_input ex_step_env ex_session ex_shared of
      (Inr r, s', sh') \<Rightarrow> status (action_result r) = ''failed''
    | _ \<Rightarrow> False)"
  by code_simp

theorem dispatched_step_has_network_event_witness:
  "\<exists>r s' sh'. step ex_digest ex_input ex_step_env ex_session ex_shared = (Inr r, s', sh')
      \<and> status (action_result r) = ''failed''
      \<and> network_events (sr_state r) \<noteq> []
      \<and> ''NO_NETWORK_EVENT'' \<notin> set (error_codes r)
      \<and> networkEvents s' \<noteq> []"
proof -
  from ex_step_runs obtain r s' sh' where
    run: "step ex_digest ex_input ex_step_env ex_session ex_shared = (Inr r, s', sh')"
    and failed: "status (action_result r) = ''failed''"
    by (auto split: prod.splits sum.splits)
  from failed have not_denied: "status (action_result r) \<noteq> ''policy_denied''" by simp
  have one_action: "in_max_actions_per_step ex_input = None \<or> in_max_actions_per_step ex_input = Some 1"
    by (simp add: ex_input_def)
  have network: "includeNetwork (normalizeCaptureSettings (params ex_session) (in_capture ex_input))"
    by (simp add: normalizeCaptureSettings_def ex_input_def)
  from dispatched_step_has_network_event [OF run not_denied one_action network]
  show ?thesis using run failed by blast
qed

subsection \<open>Stopping a session\<close>

lemma stop_when_stopped:
  assumes "\<not> active s"
  shows "stop preserveArtifacts env s sh =
           (\<lparr>so_status = ''already_stopped'', so_cleanup = ''noop'',
             so_tracePath = buildTracePath (cwd (files sh)) (traceId (params s)), so_sessionId = bs_id s\<rparr>, s, sh)"
  using assms by (simp add: stop_def)

lemma stop_deactivates: "\<not> active (fst (snd (stop preserveArtifacts env s sh)))"
  by (simp add: stop_def Let_def)

lemma stop_is_idempotent:
  assumes "stop p env s sh = (outcome, s1, sh1)"
  shows "stop p' env' s1 sh1 =
           (\<lparr>so_status = ''already_stopped'', so_cleanup = ''noop'',
             so_tracePath = buildTracePath (cwd (files sh1)) (traceId (params s1)), so_sessionId = bs_id s1\<rparr>, s1, sh1)"
proof -
  from assms have "\<not> active s1" using stop_deactivates [of p env s sh] by simp
  then show ?thesis by (rule stop_when_stopped)
qed

lemma step_when_stopped:
  assumes "\<not> active s"
  shows "step H input env s sh = (Inl (Error ''session is not active''), s, sh)"
  using assms by (simp add: step_def)

lemma snapshot_does_not_read_active:
  "fst (snapshot H input env (s\<lparr>active := b\<rparr>) sh) = fst (snapshot H input env s sh)"
  by (simp add: snapshot_def session_buildStateSnapshot_def
        split: option.split sum.split prod.split)

text \<open>
  C3. A session that has been stopped answers \<open>stop\<close> with the no-op result and changes
  nothing (\<open>stop_is_idempotent\<close>), and it rejects \<open>step\<close> with
  \<open>session is not active\<close> (\<open>step_when_stopped\<close>). \<open>snapshot\<close> has no such check: it
  never reads the \<open>active\<close> flag (\<open>snapshot_does_not_read_active\<close>). The theorem runs
  the example session: it is stopped without preserving its artifacts, so its trace file
  is removed; a snapshot that does not ask for the DOM, on the page now closed, then
  returns a state packet and appends a \<open>snapshot\<close> event to a trace file it creates
  anew. So a stopped session does accept a further snapshot call.
\<close>

theorem snapshot_on_stopped_session:
  "(case stop False ex_teardown ex_session ex_shared of
      (outcome, s1, sh1) \<Rightarrow>
        so_status outcome = ''stopped'' \<and> \<not> active s1
        \<and> trace_files (files sh1) (buildTracePath (cwd (files sh1)) (traceId (params s1))) = None
        \<and> (case snapshot ex_digest ex_snapshot_input ex_snapshot_env s1 sh1 of
              (Inr packet, s2, sh2) \<Rightarrow>
                sp_session_id packet = ''s1''
                \<and> (case events (load 0 False (traceId (params s2)) (files sh2)) of
                       [IsEvent event] \<Rightarrow> ev_type event = ev_snapshot \<and> ev_index event = 1
                     | _ \<Rightarrow> False)
            | (Inl e, s2, sh2) \<Rightarrow> False))"
  by code_simp

subsection \<open>The session manager and the stop tool\<close>

lemma manager_stop_unknown:
  assumes "get w k = None"
  shows "manager_stop k p env w = w"
  using assms by (simp add: manager_stop_def)

lemma manager_stop_known:
  assumes "get w k = Some session"
  shows "sessions (manager_stop k p env w) = removeAll k (sessions w)"
    and "created (manager_stop k p env w) = map_delete k (created w)"
    and "\<exists>s'. objects (manager_stop k p env w) k = Some s' \<and> \<not> active s'"
    and "k' \<noteq> k \<Longrightarrow> objects (manager_stop k p env w) k' = objects w k'"
  using assms stop_deactivates [of p env session "shared_state w"]
  by (auto simp add: manager_stop_def Let_def split: prod.splits)

lemma manager_stop_config:
  "maxAgeMs (manager_stop k p env w) = maxAgeMs w"
  "maxSessions (manager_stop k p env w) = maxSessions w"
  "allowedDomains (manager_stop k p env w) = allowedDomains w"
  "deniedDomains (manager_stop k p env w) = deniedDomains w"
  by (simp_all add: manager_stop_def Let_def split: option.split prod.split)

lemma get_after_manager_stop:
  "get (manager_stop k p env w) k = None"
proof (cases "get w k")
  case None
  then show ?thesis by (simp add: manager_stop_unknown)
next
  case (Some session)
  from manager_stop_known(1) [OF Some] show ?thesis by (simp add: get_def)
qed

lemma gc_loop_fold:
  "gc_loop now envs entries n w =
     (n + length (filter (\<lambda>entry. now - snd entry > maxAgeMs w) entries),
      foldl (\<lambda>w' k. manager_stop k False (envs k) w') w
        (map fst (filter (\<lambda>entry. now - snd entry > maxAgeMs w) entries)))"
proof (induction entries arbitrary: n w)
  case Nil
  then show ?case by simp
next
  case (Cons entry entries)
  obtain sessionId startedAt where entry: "entry = (sessionId, startedAt)" by (cases entry) auto
  show ?case
    by (simp add: entry Cons.IH manager_stop_config)
qed

lemma stop_all_effects:
  assumes "distinct ks" and "\<forall>k \<in> set ks. get w k \<noteq> None"
  shows "sessions (foldl (\<lambda>w' k. manager_stop k False (envs k) w') w ks)
           = filter (\<lambda>k. k \<notin> set ks) (sessions w)
       \<and> created (foldl (\<lambda>w' k. manager_stop k False (envs k) w') w ks)
           = filter (\<lambda>entry. fst entry \<notin> set ks) (created w)
       \<and> (\<forall>k \<in> set ks. \<exists>s'. objects (foldl (\<lambda>w' k. manager_stop k False (envs k) w') w ks) k = Some s'
                              \<and> \<not> active s')
       \<and> (\<forall>k. k \<notin> set ks \<longrightarrow> objects (foldl (\<lambda>w' k. manager_stop k False (envs k) w') w ks) k = objects w k)"
  using assms
proof (induction ks arbitrary: w)
  case Nil
  show ?case by simp
next
  case (Cons k ks)
  let ?w1 = "manager_stop k False (envs k) w"
  let ?end = "foldl (\<lambda>w' k. manager_stop k False (envs k) w') ?w1 ks"
  from Cons.prems obtain session where s: "get w k = Some session" by auto
  note eff = manager_stop_known [OF s, where p = False and env = "envs k"]
  have known1: "\<forall>k' \<in> set ks. get ?w1 k' \<noteq> None"
  proof
    fix k' assume k': "k' \<in> set ks"
    with Cons.prems have ne: "k' \<noteq> k" by auto
    from Cons.prems k' have "get w k' \<noteq> None" by simp
    then show "get ?w1 k' \<noteq> None"
      using ne eff(1) eff(4) [OF ne] by (auto simp add: get_def split: if_splits)
  qed
  from Cons.prems have d1: "distinct ks" and fresh: "k \<notin> set ks" by simp_all
  note ih = Cons.IH [OF d1 known1]
  have a: "sessions ?end = filter (\<lambda>k'. k' \<notin> set (k # ks)) (sessions w)"
  proof -
    have "sessions ?end = filter (\<lambda>k'. k' \<notin> set ks) (filter (\<lambda>k'. k' \<noteq> k) (sessions w))"
      using ih eff(1) by (simp add: removeAll_filter_not_eq eq_commute)
    also have "\<dots> = filter (\<lambda>k'. k' \<notin> set (k # ks)) (sessions w)"
      by (simp add: conj_commute)
    finally show ?thesis .
  qed
  have b: "created ?end = filter (\<lambda>entry. fst entry \<notin> set (k # ks)) (created w)"
  proof -
    have "created ?end = filter (\<lambda>entry. fst entry \<notin> set ks) (filter (\<lambda>entry. fst entry \<noteq> k) (created w))"
      using ih eff(2) by (simp add: map_delete_def)
    also have "\<dots> = filter (\<lambda>entry. fst entry \<notin> set (k # ks)) (created w)"
      by (simp add: conj_commute)
    finally show ?thesis .
  qed
  have c: "\<forall>k' \<in> set (k # ks). \<exists>s'. objects ?end k' = Some s' \<and> \<not> active s'"
    using ih eff(3) fresh by auto
  have d: "\<forall>k'. k' \<notin> set (k # ks) \<longrightarrow> objects ?end k' = objects w k'"
    using ih eff(4) by auto
  from a b c d show ?case by simp
qed

lemma expired_entries:
  assumes "distinct (map fst (created w))"
  shows "filter (\<lambda>entry. fst entry \<notin> set (expired now w)) (created w)
           = filter (\<lambda>entry. \<not> now - snd entry > maxAgeMs w) (created w)"
proof (rule filter_cong [OF refl])
  fix entry assume mem: "entry \<in> set (created w)"
  have inj: "inj_on fst (set (created w))" using assms by (simp add: distinct_map)
  show "(fst entry \<notin> set (expired now w)) = (\<not> now - snd entry > maxAgeMs w)"
  proof
    assume "fst entry \<notin> set (expired now w)"
    with mem show "\<not> now - snd entry > maxAgeMs w" by (force simp add: expired_def)
  next
    assume fresh: "\<not> now - snd entry > maxAgeMs w"
    show "fst entry \<notin> set (expired now w)"
    proof
      assume "fst entry \<in> set (expired now w)"
      then obtain entry' where e': "entry' \<in> set (created w)" "now - snd entry' > maxAgeMs w"
        "fst entry' = fst entry" by (auto simp add: expired_def)
      with inj mem have "entry' = entry" by (auto dest: inj_onD)
      with e' fresh show False by simp
    qed
  qed
qed

text \<open>
  C4. On a registry as the manager keeps it, \<open>gc\<close> returns the number of sessions
  whose last touch is more than \<open>maxAgeMs\<close> before \<open>now\<close>, and the state it leaves is
  the one reached by calling the manager's \<open>stop\<close> with \<open>preserveArtifacts = false\<close> on
  exactly these sessions, in the order of the \<open>Map\<close>: they are gone from both
  \<open>Map\<close>s and their objects are inactive; every other session keeps its entries and
  its object untouched. This holds for every \<open>envs\<close>, that is whichever driver and
  file-system calls reject during the teardown of whichever session: the teardown
  catches each rejection, so a session whose teardown fails does not stop the sweep.
\<close>

theorem gc_evicts_expired:
  assumes "wf_registry w"
  shows "fst (gc now envs w) = length (expired now w)
       \<and> snd (gc now envs w) = foldl (\<lambda>w' k. manager_stop k False (envs k) w') w (expired now w)
       \<and> sessions (snd (gc now envs w)) = filter (\<lambda>k. k \<notin> set (expired now w)) (sessions w)
       \<and> created (snd (gc now envs w)) = filter (\<lambda>entry. \<not> now - snd entry > maxAgeMs w) (created w)
       \<and> list_all (\<lambda>k. \<exists>s'. objects (snd (gc now envs w)) k = Some s' \<and> \<not> active s') (expired now w)
       \<and> (\<forall>k. k \<notin> set (expired now w) \<longrightarrow> objects (snd (gc now envs w)) k = objects w k)"
proof -
  have run: "gc now envs w =
      (length (expired now w), foldl (\<lambda>w' k. manager_stop k False (envs k) w') w (expired now w))"
    by (simp add: gc_def gc_loop_fold expired_def)
  from assms have keys: "distinct (map fst (created w))"
    and same: "set (map fst (created w)) = set (sessions w)"
    and objs: "\<forall>k \<in> set (sessions w). objects w k \<noteq> None"
    by (simp_all add: wf_registry_def list_all_iff)
  have d: "distinct (expired now w)"
    unfolding expired_def using keys by (rule distinct_map_filter)
  have "set (expired now w) \<subseteq> set (sessions w)"
    using same by (auto simp add: expired_def)
  with objs have known: "\<forall>k \<in> set (expired now w). get w k \<noteq> None"
    by (auto simp add: get_def)
  note eff = stop_all_effects [OF d known, of envs]
  show ?thesis
    using eff expired_entries [OF keys, of now]
    by (simp add: run list_all_iff)
qed


lemma ex_world_wf: "wf_registry ex_world"
  by (simp add: wf_registry_def ex_world_def)

lemma ex_world_expired: "expired 3000 ex_world = [''s1'', ''s3'']"
  by (simp add: expired_def ex_world_def)

theorem gc_evicts_expired_witness:
  "wf_registry ex_world
   \<and> page_close_rejects (ex_teardowns ''s1'') \<and> browser_close_rejects (ex_teardowns ''s1'')
   \<and> append_rejects (stop_record (ex_teardowns ''s1'')) \<noteq> None
   \<and> fst (gc 3000 ex_teardowns ex_world) = 2
   \<and> sessions (snd (gc 3000 ex_teardowns ex_world)) = [''s2'']
   \<and> created (snd (gc 3000 ex_teardowns ex_world)) = [(''s2'', 5000)]
   \<and> (\<exists>s'. objects (snd (gc 3000 ex_teardowns ex_world)) ''s3'' = Some s' \<and> \<not> active s')
   \<and> objects (snd (gc 3000 ex_teardowns ex_world)) ''s2'' = Some ex_session2"
proof -
  let ?w' = "snd (gc 3000 ex_teardowns ex_world)"
  note gc = gc_evicts_expired [OF ex_world_wf, of 3000 ex_teardowns, unfolded ex_world_expired]
  from gc have count: "fst (gc 3000 ex_teardowns ex_world) = 2" by simp
  from gc have "sessions ?w' = filter (\<lambda>k. k \<notin> set [''s1'', ''s3'']) (sessions ex_world)"
    by blast
  then have left: "sessions ?w' = [''s2'']" by (simp add: ex_world_def)
  from gc have "created ?w' = filter (\<lambda>entry. \<not> 3000 - snd entry > maxAgeMs ex_world) (created ex_world)"
    by blast
  then have times: "created ?w' = [(''s2'', 5000)]" by (simp add: ex_world_def)
  from gc have "list_all (\<lambda>k. \<exists>s'. objects ?w' k = Some s' \<and> \<not> active s') [''s1'', ''s3'']"
    by blast
  then have stopped: "\<exists>s'. objects ?w' ''s3'' = Some s' \<and> \<not> active s'" by simp
  from gc have "\<forall>k. k \<notin> set [''s1'', ''s3''] \<longrightarrow> objects ?w' k = objects ex_world k" by blast
  then have "objects ?w' ''s2'' = objects ex_world ''s2''" by simp
  then have kept: "objects ?w' ''s2'' = Some ex_session2" by (simp add: ex_world_def)
  have rejects: "page_close_rejects (ex_teardowns ''s1'') \<and> browser_close_rejects (ex_teardowns ''s1'')
      \<and> append_rejects (stop_record (ex_teardowns ''s1'')) \<noteq> None"
    by (simp add: ex_teardowns_def ex_teardown_failing_def)
  from ex_world_wf rejects count left times stopped kept show ?thesis by blast
qed

lemma getOldestSessionId_member:
  assumes "getOldestSessionId w = Some oldest"
  shows "\<exists>t. (oldest, t) \<in> set (created w) \<and> (\<forall>entry \<in> set (created w). t \<le> snd entry)"
proof -
  from assms obtain e rest where sorted: "sort_key snd (created w) = e # rest" and e: "fst e = oldest"
    by (auto simp add: getOldestSessionId_def split: list.splits)
  have "set (e # rest) = set (created w)" using sorted [symmetric] by simp
  moreover have "sorted (map snd (e # rest))" using sorted [symmetric] by simp
  ultimately have "e \<in> set (created w)" and "\<forall>entry \<in> set (created w). snd e \<le> snd entry"
    by auto
  with e show ?thesis by (cases e) auto
qed

text \<open>
  C8. Let the pool be full (\<open>sessions.size \<ge> maxSessions\<close>), let \<open>oldest\<close> be the id
  \<open>getOldestSessionId\<close> returns (an entry of \<open>created\<close> with the least timestamp), and
  let \<open>target_url\<close> fail the URL validation. Then \<open>create\<close> throws, and the state it
  leaves is the one after \<open>stop(oldest, false)\<close>: the oldest session is removed from
  both \<open>Map\<close>s and its object is inactive. The eviction made ahead of the validation
  is not undone.
\<close>

theorem create_evicts_before_validation:
  assumes wf: "wf_registry w"
    and full: "int (length (sessions w)) \<ge> maxSessions w"
    and oldest: "getOldestSessionId w = Some oldest"
    and named: "oldest \<noteq> []"
    and invalid: "\<not> ok (validateUrl (parse_url env) (target_url input)
                          (Some (allowedDomains w)) (Some (deniedDomains w)))"
  shows "\<exists>e. create H input env w = (Inl e, manager_stop oldest False (evict_teardown env) w)
       \<and> oldest \<in> set (sessions w)
       \<and> (\<exists>t. (oldest, t) \<in> set (created w) \<and> (\<forall>entry \<in> set (created w). t \<le> snd entry))
       \<and> sessions (snd (create H input env w)) = removeAll oldest (sessions w)
       \<and> created (snd (create H input env w)) = map_delete oldest (created w)
       \<and> get (snd (create H input env w)) oldest = None
       \<and> (\<exists>s'. objects (snd (create H input env w)) oldest = Some s' \<and> \<not> active s')"
proof -
  let ?w1 = "manager_stop oldest False (evict_teardown env) w"
  note member = getOldestSessionId_member [OF oldest]
  then have "oldest \<in> set (map fst (created w))" by force
  with wf have registered: "oldest \<in> set (sessions w)" and "objects w oldest \<noteq> None"
    by (auto simp add: wf_registry_def list_all_iff)
  then obtain session where known: "get w oldest = Some session" by (auto simp add: get_def)
  note eff = manager_stop_known [OF known, where p = False and env = "evict_teardown env"]
  have run: "create H input env w =
      (Inl (Error (join_with ''; '' (map (\<lambda>item. code item @ '':'' @ message item)
          (errors (validateUrl (parse_url env) (target_url input)
                     (Some (allowedDomains w)) (Some (deniedDomains w))))))), ?w1)"
    using full oldest named invalid by (simp add: create_def Let_def manager_stop_config)
  have gone: "get ?w1 oldest = None" using eff(1) by (simp add: get_def)
  from run registered member eff gone show ?thesis by auto
qed

lemma ex_oldest: "getOldestSessionId ex_world = Some ''s3''"
  by (simp add: getOldestSessionId_def ex_world_def)

lemma ex_invalid:
  "validateUrl (parse_url ex_create_env) (target_url ex_bad_create)
      (Some (allowedDomains ex_world)) (Some (deniedDomains ex_world))
   = \<lparr>ok = False, errors = [\<lparr>code = ''INVALID_SCHEME'', message = ''Unsupported scheme: ftp:''\<rparr>]\<rparr>"
  by (simp add: validateUrl_def ex_create_env_def ex_bad_create_def ex_world_def ex_parse_url_def
        Let_def)

theorem create_evicts_before_validation_witness:
  "int (length (sessions ex_world)) \<ge> maxSessions ex_world
   \<and> getOldestSessionId ex_world = Some ''s3''
   \<and> fst (create ex_digest ex_bad_create ex_create_env ex_world)
        = Inl (Error ''INVALID_SCHEME:Unsupported scheme: ftp:'')
   \<and> sessions (snd (create ex_digest ex_bad_create ex_create_env ex_world)) = [''s1'', ''s2'']
   \<and> get (snd (create ex_digest ex_bad_create ex_create_env ex_world)) ''s3'' = None
   \<and> (\<exists>s'. objects (snd (create ex_digest ex_bad_create ex_create_env ex_world)) ''s3'' = Some s'
          \<and> \<not> active s')"
proof -
  have full: "int (length (sessions ex_world)) \<ge> maxSessions ex_world"
    by (simp add: ex_world_def)
  have named: "''s3'' \<noteq> []" by simp
  have invalid: "\<not> ok (validateUrl (parse_url ex_create_env) (target_url ex_bad_create)
                          (Some (allowedDomains ex_world)) (Some (deniedDomains ex_world)))"
    by (simp add: ex_invalid)
  have result: "fst (create ex_digest ex_bad_create ex_create_env ex_world)
        = Inl (Error ''INVALID_SCHEME:Unsupported scheme: ftp:'')"
    using full ex_oldest
    by (simp add: create_def Let_def manager_stop_config ex_invalid)
  have left: "removeAll ''s3'' (sessions ex_world) = [''s1'', ''s2'']"
    by (simp add: ex_world_def)
  from create_evicts_before_validation [OF ex_world_wf full ex_oldest named invalid, of ex_digest]
  show ?thesis using full ex_oldest result left by auto
qed

text \<open>
  C10. When a \<open>web_agent_session_stop\<close> call succeeds for a session id, the id is no
  longer a key of the manager's sessions and a lookup of it finds nothing; every
  \<open>web_agent_session_stop\<close> call with the same id in the state the first call left,
  whatever its \<open>preserve_artifacts\<close> and whatever the environment does, throws
  \<open>Unknown session_id: {id}\<close> and changes nothing. It does not return a no-op result.
\<close>

theorem tool_stop_then_unknown:
  assumes "tool_stop raw env w = (Inr res, w')"
  shows "\<exists>sid. raw_session_id raw = Some sid \<and> ssr_session_id res = sid
           \<and> sid \<notin> set (sessions w') \<and> get w' sid = None
           \<and> (\<forall>raw' env'. raw_session_id raw' = Some sid \<longrightarrow>
                 tool_stop raw' env' w' = (Inl (Error (''Unknown session_id: '' @ sid)), w'))"
proof -
  from assms obtain input where parsed: "parse_stop raw = Inr input"
    by (cases "parse_stop raw") (auto simp add: tool_stop_def)
  define sid where "sid = st_session_id input"
  from parsed have raw: "raw_session_id raw = Some sid" and nonempty: "\<not> length sid < 1"
    by (auto simp add: parse_stop_def sid_def split: option.splits if_splits)
  from assms parsed obtain session where known: "get w sid = Some session"
    by (cases "get w sid") (auto simp add: tool_stop_def sid_def)
  obtain outcome session' sh' where
    stopped: "stop (preserve_artifacts input = Some True) (session_teardown env) session (shared_state w)
               = (outcome, session', sh')"
    by (cases "stop (preserve_artifacts input = Some True) (session_teardown env) session (shared_state w)") auto
  define w1 where "w1 = w\<lparr>objects := (objects w)(sid \<mapsto> session'), shared_state := sh'\<rparr>"
  from assms parsed known stopped
  have w': "w' = manager_stop sid (preserve_artifacts input = Some True) (manager_teardown env) w1"
    and res: "ssr_session_id res = sid"
    by (auto simp add: tool_stop_def sid_def w1_def Let_def)
  have gone: "get w' sid = None" unfolding w' by (rule get_after_manager_stop)
  from known have "sid \<in> set (sessions w)" by (simp add: get_def split: if_splits)
  then have "get w1 sid = Some session'" by (simp add: get_def w1_def)
  from manager_stop_known(1) [OF this] have absent: "sid \<notin> set (sessions w')"
    unfolding w' by simp
  have again: "tool_stop raw' env' w' = (Inl (Error (''Unknown session_id: '' @ sid)), w')"
    if "raw_session_id raw' = Some sid" for raw' env'
    using that nonempty gone by (simp add: tool_stop_def parse_stop_def)
  from raw res absent gone again show ?thesis by blast
qed

lemma ex_tool_stop_runs:
  "(case tool_stop ex_raw_stop ex_tool_stop_env ex_world of
      (Inr res, w') \<Rightarrow> final_status res = ''stopped'' \<and> cleanup_status res = ''cleaned''
    | _ \<Rightarrow> False)"
  by code_simp

theorem tool_stop_then_unknown_witness:
  "\<exists>res w'. tool_stop ex_raw_stop ex_tool_stop_env ex_world = (Inr res, w')
      \<and> final_status res = ''stopped''
      \<and> get w' ''s1'' = None
      \<and> tool_stop ex_raw_stop ex_tool_stop_env w' = (Inl (Error ''Unknown session_id: s1''), w')"
proof -
  from ex_tool_stop_runs obtain res w' where
    run: "tool_stop ex_raw_stop ex_tool_stop_env ex_world = (Inr res, w')"
    and status: "final_status res = ''stopped''"
    by (auto split: prod.splits sum.splits)
  from tool_stop_then_unknown [OF run]
  have "get w' ''s1'' = None
      \<and> tool_stop ex_raw_stop ex_tool_stop_env w' = (Inl (Error (''Unknown session_id: '' @ ''s1'')), w')"
    by (auto simp add: ex_raw_stop_def)
  with run status show ?thesis by auto
qed

subsection \<open>The registry invariant\<close>

text \<open>
  The two \<open>Map\<close>s of a manager start empty and are written only by \<open>create\<close>, \<open>stop\<close>,
  \<open>gc\<close> and \<open>touch\<close>. Each of them keeps \<open>wf_registry\<close>, so every registry that the
  manager can reach has the same keys in both \<open>Map\<close>s and a session object behind each
  key.
\<close>

lemma wf_registry_initial:
  assumes "sessions w = []" and "created w = []"
  shows "wf_registry w"
  using assms by (simp add: wf_registry_def)

lemma map_set_keys:
  "map fst (map_set k v m) = (if k \<in> set (map fst m) then map fst m else map fst m @ [k])"
  by (induction m) (auto simp add: rev_image_eqI)

lemma map_delete_keys: "map fst (map_delete k m) = removeAll k (map fst m)"
  by (induction m) (auto simp add: map_delete_def)

lemma wf_registry_manager_stop:
  assumes "wf_registry w"
  shows "wf_registry (manager_stop k p env w)"
proof (cases "get w k")
  case None
  with assms show ?thesis by (simp add: manager_stop_unknown)
next
  case (Some session)
  note eff = manager_stop_known [OF Some, where p = p and env = env]
  note keys = map_delete_keys [of k "created w"]
  have "list_all (\<lambda>k'. objects (manager_stop k p env w) k' \<noteq> None) (removeAll k (sessions w))"
    using assms eff(4) by (auto simp add: wf_registry_def list_all_iff)
  then show ?thesis
    using assms eff(1,2) by (simp add: wf_registry_def keys distinct_removeAll)
qed

lemma wf_registry_touch:
  assumes "wf_registry w"
  shows "wf_registry (touch k now w)"
proof (cases "k \<in> set (sessions w)")
  case True
  with assms have "k \<in> set (map fst (created w))" by (simp add: wf_registry_def)
  then have "map fst (map_set k now (created w)) = map fst (created w)"
    by (simp add: map_set_keys)
  with assms True show ?thesis by (simp add: touch_def wf_registry_def)
next
  case False
  with assms show ?thesis by (simp add: touch_def)
qed

lemma wf_registry_gc:
  assumes "wf_registry w"
  shows "wf_registry (snd (gc now envs w))"
proof -
  have "wf_registry (foldl (\<lambda>w' k. manager_stop k False (envs k) w') w ks)" for ks
    using assms by (induction ks arbitrary: w) (simp_all add: wf_registry_manager_stop)
  then show ?thesis by (simp add: gc_def gc_loop_fold)
qed

lemma wf_registry_shared: "wf_registry (w\<lparr>shared_state := sh\<rparr>) = wf_registry w"
  by (simp add: wf_registry_def)

lemma wf_registry_add:
  assumes "wf_registry w"
  shows "wf_registry (w\<lparr>objects := (objects w)(k \<mapsto> session),
                         shared_state := sh,
                         sessions := key_set k (sessions w),
                         created := map_set k t (created w)\<rparr>)"
proof -
  from assms have same: "set (map fst (created w)) = set (sessions w)"
    by (simp add: wf_registry_def)
  show ?thesis
  proof (cases "k \<in> set (sessions w)")
    case True
    with same have "map fst (map_set k t (created w)) = map fst (created w)"
      by (simp add: map_set_keys)
    with assms True show ?thesis
      by (auto simp add: wf_registry_def key_set_def list_all_iff)
  next
    case False
    with same have "map fst (map_set k t (created w)) = map fst (created w) @ [k]"
      by (simp add: map_set_keys)
    with assms False same show ?thesis
      by (auto simp add: wf_registry_def key_set_def list_all_iff)
  qed
qed

lemma wf_registry_create:
  assumes "wf_registry w"
  shows "wf_registry (snd (create H input env w))"
proof -
  define w1 where "w1 = (if int (length (sessions w)) \<ge> maxSessions w
                then (case getOldestSessionId w of
                        None \<Rightarrow> w
                      | Some oldest \<Rightarrow>
                          (if oldest \<noteq> [] then manager_stop oldest False (evict_teardown env) w else w))
                else w)"
  have w1: "wf_registry w1"
    using assms by (simp add: w1_def wf_registry_manager_stop split: option.split)
  have "snd (create H input env w) = w1
        \<or> (\<exists>sh. snd (create H input env w) = w1\<lparr>shared_state := sh\<rparr>)
        \<or> (\<exists>k session sh t. snd (create H input env w) =
              w1\<lparr>objects := (objects w1)(k \<mapsto> session), shared_state := sh,
                  sessions := key_set k (sessions w1),
                  created := map_set k t (created w1)\<rparr>)"
    unfolding create_def Let_def w1_def [symmetric]
    by (simp split: sum.split prod.split) blast
  then show ?thesis
    using w1 wf_registry_add [OF w1] by (auto simp add: wf_registry_shared)
qed

end
